theory Spec2Isabelle
  imports Complex_Main
begin

section \<open>Real-time scheduling simulator: task and job model\<close>

text \<open>
  The simulator is written in Python. Its \<^verbatim>\<open>float\<close> values are doubles; they are
  modelled as the real numbers they denote (no infinities or NaN), and comparisons of
  doubles are comparisons of those reals. Python object references to Jobs are modelled
  as indices into the simulator's \<^verbatim>\<open>task_instances\<close> list, which is the store that
  owns every Job.
\<close>

subsection \<open>Floating-point operations\<close>

text \<open>
  Arithmetic on doubles rounds. Where a result of the program depends on how a chain of
  operations is rounded (the accumulated release times of a periodic task, the
  accumulated utilization, the rate-monotonic bound), the operations \<^verbatim>\<open>+\<close>, \<^verbatim>\<open>-\<close>,
  \<^verbatim>\<open>*\<close>, \<^verbatim>\<open>/\<close> and \<^verbatim>\<open>**\<close> are parameters of the model: a function that takes
  \<open>ops\<close> applies them in the order in which the source applies them, and what is
  proved about it holds for every choice of the operations, those of IEEE 754 and the
  exact ones alike.
\<close>

record float_ops =
  fadd :: "real \<Rightarrow> real \<Rightarrow> real"
  fsub :: "real \<Rightarrow> real \<Rightarrow> real"
  fmul :: "real \<Rightarrow> real \<Rightarrow> real"
  fdiv :: "real \<Rightarrow> real \<Rightarrow> real"
  fpow :: "real \<Rightarrow> real \<Rightarrow> real"

text \<open>
  The exact operations. A floating-point operation whose exact result is a double
  returns that result, so on such operands the two agree.
\<close>

definition exact_ops :: float_ops where
  "exact_ops = \<lparr>fadd = (+), fsub = (-), fmul = (*), fdiv = (/), fpow = (powr)\<rparr>"

subsection \<open>task.py\<close>

datatype TaskType = PERIODIC | DYNAMIC | APERIODIC

datatype ServerType = NONE | BACKGROUND | POLLER | DEFERRABLE

record Task =
  task_id :: nat
  task_type :: TaskType
  execution_time :: real
  period :: real
  deadline :: real
  release_time :: real
  server :: ServerType

text \<open>
  \<^verbatim>\<open>Task.__init__\<close>. The class-wide counter \<^verbatim>\<open>Task._task_counter\<close> is passed in
  explicitly; the new task receives the incremented value as its id.
\<close>

definition Task_init ::
  "nat \<Rightarrow> TaskType \<Rightarrow> real \<Rightarrow> real \<Rightarrow> real \<Rightarrow> real \<Rightarrow> ServerType \<Rightarrow> Task" where
  "Task_init task_counter ty e p d r srv =
     \<lparr>task_id = task_counter + 1, task_type = ty, execution_time = e, period = p,
      deadline = (if d > 0 then d else p), release_time = r, server = srv\<rparr>"

record Job =
  task :: Task
  remaining :: real
  abs_deadline :: real
  current_release :: real
  started :: bool
  start_time :: "real option"
  completion_time :: "real option"
  preemption_count :: nat

definition Job_init :: "Task \<Rightarrow> real \<Rightarrow> Job" where
  "Job_init t r =
     \<lparr>task = t, remaining = execution_time t, abs_deadline = r + deadline t,
      current_release = r, started = False, start_time = None, completion_time = None,
      preemption_count = 0\<rparr>"

definition is_complete :: "Job \<Rightarrow> bool" where
  "is_complete j \<longleftrightarrow> remaining j \<le> 1 / 10 ^ 9"

definition is_deadline_missed :: "Job \<Rightarrow> real \<Rightarrow> bool" where
  "is_deadline_missed j now \<longleftrightarrow> now > abs_deadline j \<and> \<not> is_complete j"

text \<open>\<^verbatim>\<open>Job.execute\<close>: returns the job after the call and the time actually executed.\<close>

definition execute :: "Job \<Rightarrow> real \<Rightarrow> Job \<times> real" where
  "execute j duration =
     (let actual_time = min duration (remaining j)
      in (j\<lparr>started := True, remaining := max 0 (remaining j - actual_time)\<rparr>, actual_time))"

subsection \<open>parser.py: task construction and the task set\<close>

text \<open>
  The task constructors of the parser, after the fields of the line have been converted
  with \<^verbatim>\<open>float\<close>. The periodic parser has three shapes, by the number of fields.
\<close>

definition parse_periodic_task3 :: "nat \<Rightarrow> real \<Rightarrow> real \<Rightarrow> Task" where
  "parse_periodic_task3 cnt ei pi' = Task_init cnt PERIODIC ei pi' 0 0 NONE"

definition parse_periodic_task4 :: "nat \<Rightarrow> real \<Rightarrow> real \<Rightarrow> real \<Rightarrow> Task" where
  "parse_periodic_task4 cnt ri ei pi' = Task_init cnt PERIODIC ei pi' 0 ri NONE"

definition parse_periodic_task5 :: "nat \<Rightarrow> real \<Rightarrow> real \<Rightarrow> real \<Rightarrow> real \<Rightarrow> Task" where
  "parse_periodic_task5 cnt ri ei pi' di = Task_init cnt PERIODIC ei pi' di ri NONE"

definition parse_dynamic_task :: "nat \<Rightarrow> real \<Rightarrow> real \<Rightarrow> real \<Rightarrow> Task" where
  "parse_dynamic_task cnt ei pi' di = Task_init cnt DYNAMIC ei pi' di 0 NONE"

definition parse_aperiodic_task :: "nat \<Rightarrow> real \<Rightarrow> real \<Rightarrow> ServerType \<Rightarrow> Task" where
  "parse_aperiodic_task cnt ri ei server_type = Task_init cnt APERIODIC ei 0 0 ri server_type"

record TaskSet =
  tasks :: "Task list"
  periodic_tasks :: "Task list"
  dynamic_tasks :: "Task list"
  aperiodic_tasks :: "Task list"

definition TaskSet_init :: TaskSet where
  "TaskSet_init = \<lparr>tasks = [], periodic_tasks = [], dynamic_tasks = [], aperiodic_tasks = []\<rparr>"

definition add_task :: "TaskSet \<Rightarrow> Task \<Rightarrow> TaskSet" where
  "add_task ts t =
     (let ts1 = ts\<lparr>tasks := tasks ts @ [t]\<rparr>
      in if task_type t = PERIODIC then ts1\<lparr>periodic_tasks := periodic_tasks ts1 @ [t]\<rparr>
         else if task_type t = DYNAMIC then ts1\<lparr>dynamic_tasks := dynamic_tasks ts1 @ [t]\<rparr>
         else if task_type t = APERIODIC then ts1\<lparr>aperiodic_tasks := aperiodic_tasks ts1 @ [t]\<rparr>
         else ts1)"

section \<open>aperiodic\_server.py\<close>

record AperiodicServer =
  capacity :: real
  server_period :: real
  current_capacity :: real
  last_replenishment_time :: real

record DeferrableServer = AperiodicServer +
  is_active :: bool

record SporadicServer = AperiodicServer +
  replenishment_queue :: "(real \<times> real) list"

definition AperiodicServer_init :: "real \<Rightarrow> real \<Rightarrow> AperiodicServer" where
  "AperiodicServer_init c p =
     \<lparr>capacity = c, server_period = p, current_capacity = c, last_replenishment_time = 0\<rparr>"

definition AperiodicServer_reset :: "'a AperiodicServer_scheme \<Rightarrow> 'a AperiodicServer_scheme" where
  "AperiodicServer_reset s = s\<lparr>current_capacity := capacity s, last_replenishment_time := 0\<rparr>"

text \<open>Background server: constructed with the default capacity and period 0.\<close>

definition BackgroundServer_init :: AperiodicServer where
  "BackgroundServer_init = AperiodicServer_init 0 0"

definition background_can_serve :: "AperiodicServer \<Rightarrow> real \<Rightarrow> bool" where
  "background_can_serve s now = True"

definition background_consume :: "AperiodicServer \<Rightarrow> real \<Rightarrow> real \<Rightarrow> AperiodicServer" where
  "background_consume s et now = s"

definition background_replenish :: "AperiodicServer \<Rightarrow> real \<Rightarrow> AperiodicServer" where
  "background_replenish s now = s"

text \<open>Polling server.\<close>

definition PollingServer_init :: "real \<Rightarrow> real \<Rightarrow> AperiodicServer" where
  "PollingServer_init c p = AperiodicServer_init c p"

definition polling_can_serve :: "AperiodicServer \<Rightarrow> real \<Rightarrow> bool" where
  "polling_can_serve s now \<longleftrightarrow> current_capacity s > 0"

definition polling_consume :: "AperiodicServer \<Rightarrow> real \<Rightarrow> real \<Rightarrow> AperiodicServer" where
  "polling_consume s et now =
     (let s1 = s\<lparr>current_capacity := current_capacity s - et\<rparr>
      in if current_capacity s1 < 0 then s1\<lparr>current_capacity := 0\<rparr> else s1)"

definition polling_replenish :: "AperiodicServer \<Rightarrow> real \<Rightarrow> AperiodicServer" where
  "polling_replenish s now =
     (if now - last_replenishment_time s \<ge> server_period s
      then s\<lparr>current_capacity := capacity s, last_replenishment_time := now\<rparr>
      else s)"

text \<open>Deferrable server.\<close>

definition DeferrableServer_init :: "real \<Rightarrow> real \<Rightarrow> DeferrableServer" where
  "DeferrableServer_init c p =
     \<lparr>capacity = c, server_period = p, current_capacity = c, last_replenishment_time = 0,
      is_active = False\<rparr>"

definition deferrable_can_serve :: "DeferrableServer \<Rightarrow> real \<Rightarrow> bool" where
  "deferrable_can_serve s now \<longleftrightarrow> current_capacity s > 0"

definition deferrable_consume :: "DeferrableServer \<Rightarrow> real \<Rightarrow> real \<Rightarrow> DeferrableServer" where
  "deferrable_consume s et now =
     (let s1 = s\<lparr>current_capacity := current_capacity s - et\<rparr>;
          s2 = (if current_capacity s1 < 0 then s1\<lparr>current_capacity := 0\<rparr> else s1)
      in s2\<lparr>is_active := True\<rparr>)"

definition deferrable_replenish :: "DeferrableServer \<Rightarrow> real \<Rightarrow> DeferrableServer" where
  "deferrable_replenish s now =
     (if now - last_replenishment_time s \<ge> server_period s
      then s\<lparr>current_capacity := capacity s, last_replenishment_time := now, is_active := False\<rparr>
      else s)"

definition deferrable_reset :: "DeferrableServer \<Rightarrow> DeferrableServer" where
  "deferrable_reset s = (AperiodicServer_reset s)\<lparr>is_active := False\<rparr>"

text \<open>Sporadic server. The queue holds pairs (replenishment time, amount).\<close>

definition SporadicServer_init :: "real \<Rightarrow> real \<Rightarrow> SporadicServer" where
  "SporadicServer_init c p =
     \<lparr>capacity = c, server_period = p, current_capacity = c, last_replenishment_time = 0,
      replenishment_queue = []\<rparr>"

text \<open>
  The loop of \<^verbatim>\<open>_process_replenishments\<close>: it walks the queue once, carrying the
  capacity and the list \<^verbatim>\<open>remaining_queue\<close>.
\<close>

fun process_loop ::
  "real \<Rightarrow> real \<Rightarrow> (real \<times> real) list \<Rightarrow> real \<Rightarrow> (real \<times> real) list \<Rightarrow> real \<times> (real \<times> real) list" where
  "process_loop cap now [] cur remaining_queue = (cur, remaining_queue)"
| "process_loop cap now ((replenish_time, amount) # q) cur remaining_queue =
     (if replenish_time \<le> now
      then process_loop cap now q (min cap (cur + amount)) remaining_queue
      else process_loop cap now q cur (remaining_queue @ [(replenish_time, amount)]))"

definition process_replenishments :: "SporadicServer \<Rightarrow> real \<Rightarrow> SporadicServer" where
  "process_replenishments s now =
     (case process_loop (capacity s) now (replenishment_queue s) (current_capacity s) [] of
        (cur, remaining_queue) \<Rightarrow>
          s\<lparr>current_capacity := cur, replenishment_queue := remaining_queue\<rparr>)"

definition sporadic_can_serve :: "SporadicServer \<Rightarrow> real \<Rightarrow> bool \<times> SporadicServer" where
  "sporadic_can_serve s now =
     (let s1 = process_replenishments s now in (current_capacity s1 > 0, s1))"

definition sporadic_consume :: "SporadicServer \<Rightarrow> real \<Rightarrow> real \<Rightarrow> SporadicServer" where
  "sporadic_consume s et now =
     (let consumed = min et (current_capacity s)
      in if consumed > 0
         then s\<lparr>current_capacity := current_capacity s - consumed,
                replenishment_queue :=
                  replenishment_queue s @ [(now + server_period s, consumed)]\<rparr>
         else s)"

definition sporadic_replenish :: "SporadicServer \<Rightarrow> real \<Rightarrow> SporadicServer" where
  "sporadic_replenish s now = process_replenishments s now"

definition sporadic_reset :: "SporadicServer \<Rightarrow> SporadicServer" where
  "sporadic_reset s = (AperiodicServer_reset s)\<lparr>replenishment_queue := []\<rparr>"

text \<open>
  The four server classes behind the common interface. A call returns the server after
  the call; \<^verbatim>\<open>can_serve\<close> also returns its answer (the sporadic variant updates the
  server while answering).
\<close>

datatype aperiodic_server =
    Background AperiodicServer
  | Polling AperiodicServer
  | Deferrable DeferrableServer
  | Sporadic SporadicServer

fun can_serve :: "aperiodic_server \<Rightarrow> real \<Rightarrow> bool \<times> aperiodic_server" where
  "can_serve (Background s) now = (background_can_serve s now, Background s)"
| "can_serve (Polling s) now = (polling_can_serve s now, Polling s)"
| "can_serve (Deferrable s) now = (deferrable_can_serve s now, Deferrable s)"
| "can_serve (Sporadic s) now = (case sporadic_can_serve s now of (b, s') \<Rightarrow> (b, Sporadic s'))"

fun consume :: "aperiodic_server \<Rightarrow> real \<Rightarrow> real \<Rightarrow> aperiodic_server" where
  "consume (Background s) et now = Background (background_consume s et now)"
| "consume (Polling s) et now = Polling (polling_consume s et now)"
| "consume (Deferrable s) et now = Deferrable (deferrable_consume s et now)"
| "consume (Sporadic s) et now = Sporadic (sporadic_consume s et now)"

fun replenish :: "aperiodic_server \<Rightarrow> real \<Rightarrow> aperiodic_server" where
  "replenish (Background s) now = Background (background_replenish s now)"
| "replenish (Polling s) now = Polling (polling_replenish s now)"
| "replenish (Deferrable s) now = Deferrable (deferrable_replenish s now)"
| "replenish (Sporadic s) now = Sporadic (sporadic_replenish s now)"

fun server_reset :: "aperiodic_server \<Rightarrow> aperiodic_server" where
  "server_reset (Background s) = Background (AperiodicServer_reset s)"
| "server_reset (Polling s) = Polling (AperiodicServer_reset s)"
| "server_reset (Deferrable s) = Deferrable (deferrable_reset s)"
| "server_reset (Sporadic s) = Sporadic (sporadic_reset s)"

fun server_capacity :: "aperiodic_server \<Rightarrow> real" where
  "server_capacity (Background s) = capacity s"
| "server_capacity (Polling s) = capacity s"
| "server_capacity (Deferrable s) = capacity s"
| "server_capacity (Sporadic s) = capacity s"

fun server_current_capacity :: "aperiodic_server \<Rightarrow> real" where
  "server_current_capacity (Background s) = current_capacity s"
| "server_current_capacity (Polling s) = current_capacity s"
| "server_current_capacity (Deferrable s) = current_capacity s"
| "server_current_capacity (Sporadic s) = current_capacity s"

fun server_last_replenishment_time :: "aperiodic_server \<Rightarrow> real" where
  "server_last_replenishment_time (Background s) = last_replenishment_time s"
| "server_last_replenishment_time (Polling s) = last_replenishment_time s"
| "server_last_replenishment_time (Deferrable s) = last_replenishment_time s"
| "server_last_replenishment_time (Sporadic s) = last_replenishment_time s"

text \<open>
  A client of the interface: a sequence of calls, run in order, collecting what each
  call returns (\<^verbatim>\<open>can_serve\<close> returns a boolean, the others nothing).
\<close>

datatype server_call = CanServe real | Consume real real | Replenish real | Reset

fun call :: "server_call \<Rightarrow> aperiodic_server \<Rightarrow> bool option \<times> aperiodic_server" where
  "call (CanServe now) s = (case can_serve s now of (b, s') \<Rightarrow> (Some b, s'))"
| "call (Consume et now) s = (None, consume s et now)"
| "call (Replenish now) s = (None, replenish s now)"
| "call Reset s = (None, server_reset s)"

fun calls :: "server_call list \<Rightarrow> aperiodic_server \<Rightarrow> bool option list \<times> aperiodic_server" where
  "calls [] s = ([], s)"
| "calls (c # cs) s =
     (case call c s of (r, s') \<Rightarrow> (case calls cs s' of (rs, s'') \<Rightarrow> (r # rs, s'')))"

section \<open>scheduler.py\<close>

text \<open>
  The file begins with a C++ driver for a tick-based variant of the simulator; the Python
  classes that follow it are the ones modelled here.
\<close>

text \<open>
  The description of an event is a formatted string in the source. It is modelled by its
  template together with the values the template prints, so equal descriptions here are
  equal strings there.
\<close>

datatype description =
    Simulation_started
  | Arrived real
  | Preempted_by Task
  | Context_switch_overhead real
  | Started_execution
  | Completed real
  | Idle_until real
  | Deadline_missed real
  | Simulation_completed

record ScheduleEvent =
  time :: real
  event_task :: "nat option"
  event_type :: string
  description :: description

text \<open>The concrete scheduler classes; the field \<open>policy\<close> records the class of the object.\<close>

datatype policy =
    RateMonotonic
  | EarliestDeadlineFirst
  | FirstComeFirstServed
  | ShortestJobFirst
  | LeastSlackTime
  | DeadlineMonotonic

record Scheduler =
  policy :: policy
  current_time :: real
  schedule_events :: "ScheduleEvent list"
  completed_tasks :: "nat list"
  missed_deadlines :: "nat list"

definition Scheduler_init :: "policy \<Rightarrow> Scheduler" where
  "Scheduler_init pol =
     \<lparr>policy = pol, current_time = 0, schedule_events = [], completed_tasks = [],
      missed_deadlines = []\<rparr>"

definition Scheduler_reset :: "Scheduler \<Rightarrow> Scheduler" where
  "Scheduler_reset sch =
     sch\<lparr>current_time := 0, schedule_events := [], completed_tasks := [], missed_deadlines := []\<rparr>"

definition add_event :: "Scheduler \<Rightarrow> ScheduleEvent \<Rightarrow> Scheduler" where
  "add_event sch ev = sch\<lparr>schedule_events := schedule_events sch @ [ev]\<rparr>"

text \<open>
  Keys of the selection: a float, or \<^verbatim>\<open>float('inf')\<close>. \<open>key_less\<close> is Python's
  \<^verbatim>\<open><\<close> on such values.
\<close>

datatype key = Finite real | Infinity

fun key_less :: "key \<Rightarrow> key \<Rightarrow> bool" where
  "key_less (Finite a) (Finite b) = (a < b)"
| "key_less (Finite a) Infinity = True"
| "key_less Infinity k = False"

text \<open>
  Python's \<^verbatim>\<open>min(iterable, key=...)\<close> on a non-empty list: the first element is the
  candidate, and a later element replaces it only when its key is strictly smaller.
\<close>

fun min_loop :: "('r \<Rightarrow> key) \<Rightarrow> 'r \<Rightarrow> 'r list \<Rightarrow> 'r" where
  "min_loop k best [] = best"
| "min_loop k best (x # xs) = min_loop k (if key_less (k x) (k best) then x else best) xs"

text \<open>
  The six \<^verbatim>\<open>select_task\<close> methods. \<open>ready_queue\<close> is a list of job references and
  \<open>job\<close> reads the Job behind a reference. The methods return a reference or \<open>None\<close>
  and have no other result: they change neither the list nor the scheduler.
\<close>

definition rm_select_task :: "('r \<Rightarrow> Job) \<Rightarrow> 'r list \<Rightarrow> 'r option" where
  "rm_select_task job rq =
     (case rq of [] \<Rightarrow> None
      | x # xs \<Rightarrow>
          Some (min_loop (\<lambda>j. if task_type (task (job j)) \<in> {PERIODIC, DYNAMIC}
                              then Finite (period (task (job j))) else Infinity) x xs))"

definition edf_select_task :: "('r \<Rightarrow> Job) \<Rightarrow> 'r list \<Rightarrow> 'r option" where
  "edf_select_task job rq =
     (case rq of [] \<Rightarrow> None
      | x # xs \<Rightarrow> Some (min_loop (\<lambda>t. Finite (abs_deadline (job t))) x xs))"

definition fcfs_select_task :: "('r \<Rightarrow> Job) \<Rightarrow> 'r list \<Rightarrow> 'r option" where
  "fcfs_select_task job rq =
     (case rq of [] \<Rightarrow> None
      | x # xs \<Rightarrow> Some (min_loop (\<lambda>t. Finite (current_release (job t))) x xs))"

definition sjf_select_task :: "('r \<Rightarrow> Job) \<Rightarrow> 'r list \<Rightarrow> 'r option" where
  "sjf_select_task job rq =
     (case rq of [] \<Rightarrow> None
      | x # xs \<Rightarrow> Some (min_loop (\<lambda>t. Finite (remaining (job t))) x xs))"

definition lst_select_task :: "Scheduler \<Rightarrow> ('r \<Rightarrow> Job) \<Rightarrow> 'r list \<Rightarrow> 'r option" where
  "lst_select_task self job rq =
     (case rq of [] \<Rightarrow> None
      | x # xs \<Rightarrow>
          Some (min_loop (\<lambda>j. Finite (abs_deadline (job j) - current_time self - remaining (job j)))
                  x xs))"

definition dm_select_task :: "('r \<Rightarrow> Job) \<Rightarrow> 'r list \<Rightarrow> 'r option" where
  "dm_select_task job rq =
     (case rq of [] \<Rightarrow> None
      | x # xs \<Rightarrow>
          Some (min_loop (\<lambda>j. if task_type (task (job j)) \<in> {PERIODIC, DYNAMIC}
                              then Finite (deadline (task (job j))) else Infinity) x xs))"

definition select_task :: "Scheduler \<Rightarrow> ('r \<Rightarrow> Job) \<Rightarrow> 'r list \<Rightarrow> 'r option" where
  "select_task self job rq =
     (case policy self of
        RateMonotonic \<Rightarrow> rm_select_task job rq
      | EarliestDeadlineFirst \<Rightarrow> edf_select_task job rq
      | FirstComeFirstServed \<Rightarrow> fcfs_select_task job rq
      | ShortestJobFirst \<Rightarrow> sjf_select_task job rq
      | LeastSlackTime \<Rightarrow> lst_select_task self job rq
      | DeadlineMonotonic \<Rightarrow> dm_select_task job rq)"

section \<open>simulator.py\<close>

record SimulationConfig =
  simulation_time :: real
  time_quantum :: real
  preemptive :: bool
  context_switch_overhead :: real

text \<open>
  The simulator. Jobs live in \<open>task_instances\<close>; the ready queue, the current task and
  the scheduler's lists of completed and missed jobs hold references to them, that is,
  positions in \<open>task_instances\<close>.
\<close>

record Simulator =
  scheduler :: Scheduler
  config :: SimulationConfig
  aperiodic_server :: aperiodic_server
  task_set :: "TaskSet option"
  task_instances :: "Job list"
  ready_queue :: "nat list"
  current_task :: "nat option"

definition Simulator_init ::
  "Scheduler \<Rightarrow> SimulationConfig \<Rightarrow> aperiodic_server option \<Rightarrow> Simulator" where
  "Simulator_init sch cfg srv =
     \<lparr>scheduler = sch, config = cfg,
      aperiodic_server = (case srv of Some a \<Rightarrow> a | None \<Rightarrow> Background BackgroundServer_init),
      task_set = None, task_instances = [], ready_queue = [], current_task = None\<rparr>"

subsection \<open>Generating the job activations\<close>

text \<open>
  The inner \<^verbatim>\<open>while\<close> loop of \<^verbatim>\<open>_generate_task_instances\<close> for one periodic task:
  \<^verbatim>\<open>release_time += task.period\<close> is a floating-point addition. The loop does not
  return when the accumulated release time never reaches the horizon (a period that is
  not positive, or one so small that the sum rounds back to the release time); that is
  the value \<open>None\<close>.
\<close>

partial_function (option) release_loop ::
  "float_ops \<Rightarrow> Task \<Rightarrow> real \<Rightarrow> real \<Rightarrow> Job list \<Rightarrow> Job list option" where
  "release_loop ops t horizon rel acc =
     (if rel < horizon
      then release_loop ops t horizon (fadd ops rel (period t)) (acc @ [Job_init t rel])
      else Some acc)"

declare release_loop.simps [code]

fun periodic_loop ::
  "float_ops \<Rightarrow> Task list \<Rightarrow> real \<Rightarrow> Job list \<Rightarrow> Job list option" where
  "periodic_loop ops [] horizon acc = Some acc"
| "periodic_loop ops (t # ts) horizon acc =
     (case release_loop ops t horizon (release_time t) acc of
        None \<Rightarrow> None
      | Some acc' \<Rightarrow> periodic_loop ops ts horizon acc')"

text \<open>
  \<^verbatim>\<open>list.sort(key=...)\<close> is a stable sort; \<^const>\<open>sort_key\<close> is one too.
\<close>

definition generate_task_instances ::
  "float_ops \<Rightarrow> TaskSet \<Rightarrow> real \<Rightarrow> Job list option" where
  "generate_task_instances ops ts horizon =
     (case periodic_loop ops (periodic_tasks ts) horizon [] of
        None \<Rightarrow> None
      | Some js \<Rightarrow>
          Some (sort_key current_release
                  (js @ map (\<lambda>t. Job_init t 0) (dynamic_tasks ts)
                      @ map (\<lambda>t. Job_init t (release_time t)) (aperiodic_tasks ts))))"

definition load_task_set ::
  "float_ops \<Rightarrow> Simulator \<Rightarrow> TaskSet \<Rightarrow> Simulator option" where
  "load_task_set ops s ts =
     (case generate_task_instances ops ts (simulation_time (config s)) of
        None \<Rightarrow> None
      | Some js \<Rightarrow> Some (s\<lparr>task_set := Some ts, task_instances := js\<rparr>))"

subsection \<open>The steps of the simulation loop\<close>

definition update_job :: "nat \<Rightarrow> (Job \<Rightarrow> Job) \<Rightarrow> Simulator \<Rightarrow> Simulator" where
  "update_job r f s = s\<lparr>task_instances := (task_instances s)[r := f (task_instances s ! r)]\<rparr>"

definition check_arrivals :: "Simulator \<Rightarrow> real \<Rightarrow> Simulator" where
  "check_arrivals s now =
     (let arrived =
            filter (\<lambda>t. current_release (task_instances s ! t) \<le> now
                        \<and> t \<notin> set (ready_queue s)
                        \<and> \<not> is_complete (task_instances s ! t)
                        \<and> t \<notin> set (completed_tasks (scheduler s))
                        \<and> t \<notin> set (missed_deadlines (scheduler s)))
              [0..<length (task_instances s)]
      in fold (\<lambda>t s'. s'\<lparr>ready_queue := ready_queue s' @ [t],
                          scheduler := add_event (scheduler s')
                            \<lparr>time = now, event_task = Some t, event_type = ''ARRIVAL'',
                             description = Arrived (abs_deadline (task_instances s' ! t))\<rparr>\<rparr>)
           arrived s)"

definition miss_step :: "real \<Rightarrow> nat \<Rightarrow> Simulator \<Rightarrow> Simulator" where
  "miss_step now t s =
     (if is_deadline_missed (task_instances s ! t) now
      then s\<lparr>ready_queue := remove1 t (ready_queue s),
             scheduler := add_event
               ((scheduler s)\<lparr>missed_deadlines := missed_deadlines (scheduler s) @ [t]\<rparr>)
               \<lparr>time = now, event_task = Some t, event_type = ''DEADLINE_MISS'',
                description = Deadline_missed (abs_deadline (task_instances s ! t))\<rparr>,
             current_task := (if current_task s = Some t then None else current_task s)\<rparr>
      else s)"

text \<open>\<^verbatim>\<open>_check_deadline_misses\<close> iterates over a copy of the ready queue.\<close>

definition check_deadline_misses :: "Simulator \<Rightarrow> real \<Rightarrow> Simulator" where
  "check_deadline_misses s now = fold (miss_step now) (ready_queue s) s"

definition find_next_event_time :: "Simulator \<Rightarrow> real \<Rightarrow> real" where
  "find_next_event_time s now =
     fold (\<lambda>t next_time.
             if current_release (task_instances s ! t) > now
                \<and> current_release (task_instances s ! t) < next_time
             then (if t \<notin> set (ready_queue s) \<and> t \<notin> set (completed_tasks (scheduler s))
                   then current_release (task_instances s ! t) else next_time)
             else next_time)
       [0..<length (task_instances s)] (simulation_time (config s))"

text \<open>
  Selection of the next task: the periodic and dynamic jobs first, the aperiodic jobs
  only when there is none of those and the server admits them. \<^verbatim>\<open>can_serve\<close> is called
  only in the second branch, after the test that aperiodic jobs are ready.
\<close>

definition select_next :: "Simulator \<Rightarrow> real \<Rightarrow> nat option \<times> Simulator" where
  "select_next s now =
     (let job = (\<lambda>t. task_instances s ! t);
          periodic_ready = filter (\<lambda>t. task_type (task (job t)) \<noteq> APERIODIC) (ready_queue s);
          aperiodic_ready = filter (\<lambda>t. task_type (task (job t)) = APERIODIC) (ready_queue s)
      in if periodic_ready \<noteq> [] then (select_task (scheduler s) job periodic_ready, s)
         else if aperiodic_ready \<noteq> []
         then (case can_serve (aperiodic_server s) now of
                 (ok, srv) \<Rightarrow>
                   if ok then (select_task (scheduler s) job aperiodic_ready,
                               s\<lparr>aperiodic_server := srv\<rparr>)
                   else (None, s\<lparr>aperiodic_server := srv\<rparr>))
         else (None, s))"

text \<open>The block "Check for preemption".\<close>

definition preempt_step :: "Simulator \<Rightarrow> real \<Rightarrow> nat \<Rightarrow> Simulator" where
  "preempt_step s now next_task =
     (case current_task s of
        None \<Rightarrow> s
      | Some cur \<Rightarrow>
          if cur \<noteq> next_task \<and> preemptive (config s)
          then update_job cur (\<lambda>j. j\<lparr>preemption_count := preemption_count j + 1\<rparr>)
                 (s\<lparr>scheduler := add_event (scheduler s)
                      \<lparr>time = now, event_task = Some cur, event_type = ''PREEMPT'',
                       description = Preempted_by (task (task_instances s ! next_task))\<rparr>\<rparr>)
          else s)"

text \<open>The block "Start new task if needed"; it may advance the clock by the overhead.\<close>

definition start_step :: "Simulator \<Rightarrow> real \<Rightarrow> nat \<Rightarrow> Simulator \<times> real" where
  "start_step s now next_task =
     (if current_task s \<noteq> Some next_task
      then (let (s1, now1) =
                  (if current_task s \<noteq> None \<and> context_switch_overhead (config s) > 0
                   then (let now' = now + context_switch_overhead (config s)
                         in (s\<lparr>scheduler := (add_event (scheduler s)
                                  \<lparr>time = now', event_task = None,
                                   event_type = ''CONTEXT_SWITCH'',
                                   description = Context_switch_overhead
                                     (context_switch_overhead (config s))\<rparr>)
                                \<lparr>current_time := now'\<rparr>\<rparr>, now'))
                   else (s, now))
            in if start_time (task_instances s1 ! next_task) = None
               then (update_job next_task (\<lambda>j. j\<lparr>start_time := Some now1\<rparr>)
                       (s1\<lparr>scheduler := add_event (scheduler s1)
                            \<lparr>time = now1, event_task = Some next_task, event_type = ''START'',
                             description = Started_execution\<rparr>\<rparr>), now1)
               else (s1, now1))
      else (s, now))"

text \<open>The blocks "Execute task", "Consume server capacity" and "Check if task completed".\<close>

definition execute_step :: "Simulator \<Rightarrow> real \<Rightarrow> nat \<Rightarrow> Simulator \<times> real" where
  "execute_step s now next_task =
     (let s1 = s\<lparr>current_task := Some next_task\<rparr>;
          et = min (time_quantum (config s1)) (remaining (task_instances s1 ! next_task));
          s2 = update_job next_task (\<lambda>j. fst (execute j et)) s1;
          s3 = (if task_type (task (task_instances s2 ! next_task)) = APERIODIC
                then s2\<lparr>aperiodic_server := consume (aperiodic_server s2) et now\<rparr> else s2);
          now' = now + et;
          s4 = s3\<lparr>scheduler := (scheduler s3)\<lparr>current_time := now'\<rparr>\<rparr>
      in if is_complete (task_instances s4 ! next_task)
         then (let s5 = update_job next_task (\<lambda>j. j\<lparr>completion_time := Some now'\<rparr>) s4;
                   s6 = s5\<lparr>ready_queue := remove1 next_task (ready_queue s5)\<rparr>;
                   s7 = s6\<lparr>scheduler := add_event
                           ((scheduler s6)\<lparr>completed_tasks :=
                               completed_tasks (scheduler s6) @ [next_task]\<rparr>)
                           \<lparr>time = now', event_task = Some next_task,
                            event_type = ''COMPLETE'',
                            description = Completed (remaining (task_instances s6 ! next_task))\<rparr>\<rparr>
               in (s7\<lparr>current_task := None\<rparr>, now'))
         else (s4, now'))"

definition run_task :: "Simulator \<Rightarrow> real \<Rightarrow> nat \<Rightarrow> Simulator \<times> real" where
  "run_task s now next_task =
     (case start_step (preempt_step s now next_task) now next_task of
        (s1, now1) \<Rightarrow> execute_step s1 now1 next_task)"

text \<open>The \<^verbatim>\<open>else\<close> branch: no task was selected.\<close>

definition idle_step :: "Simulator \<Rightarrow> real \<Rightarrow> Simulator \<times> real" where
  "idle_step s now =
     (let s1 = (if current_task s \<noteq> None then s\<lparr>current_task := None\<rparr> else s);
          next_event_time = find_next_event_time s1 now;
          (s2, now') =
            (if next_event_time > now
             then (s1\<lparr>scheduler := add_event (scheduler s1)
                        \<lparr>time = now, event_task = None, event_type = ''IDLE'',
                         description = Idle_until next_event_time\<rparr>\<rparr>, next_event_time)
             else (s1, now + time_quantum (config s1)))
      in (s2\<lparr>scheduler := (scheduler s2)\<lparr>current_time := now'\<rparr>\<rparr>, now'))"

text \<open>The state in which the next task is selected: after steps 1 to 3 of an iteration.\<close>

definition before_selection :: "Simulator \<Rightarrow> real \<Rightarrow> Simulator" where
  "before_selection s now =
     (let s1 = check_arrivals s now;
          s2 = check_deadline_misses s1 now
      in s2\<lparr>aperiodic_server := replenish (aperiodic_server s2) now\<rparr>)"

definition loop_body :: "Simulator \<times> real \<Rightarrow> Simulator \<times> real" where
  "loop_body st =
     (case st of (s, now) \<Rightarrow>
        (case select_next (before_selection s now) now of
           (Some next_task, s1) \<Rightarrow> run_task s1 now next_task
         | (None, s1) \<Rightarrow> idle_step s1 now))"

text \<open>
  The \<^verbatim>\<open>while\<close> loop of \<^verbatim>\<open>run\<close>, on the pair of the simulator and the local
  variable \<^verbatim>\<open>current_time\<close>. A loop that never ends is the value \<open>None\<close>.
\<close>

partial_function (option) run_loop :: "Simulator \<times> real \<Rightarrow> (Simulator \<times> real) option" where
  "run_loop st =
     (if snd st < simulation_time (config (fst st)) then run_loop (loop_body st) else Some st)"

declare run_loop.simps [code]

text \<open>
  \<^verbatim>\<open>run\<close>: the statements before the loop (\<open>run_init\<close>), the loop, and the final
  event. The source returns the statistics of the scheduler; here \<open>run\<close> returns the
  simulator, whose scheduler holds the event log and the lists the statistics are
  computed from.
\<close>

definition run_init :: "Simulator \<Rightarrow> Simulator" where
  "run_init s =
     (let s0 = s\<lparr>scheduler := Scheduler_reset (scheduler s), ready_queue := [],
                 current_task := None\<rparr>
      in s0\<lparr>scheduler := add_event (scheduler s0)
                \<lparr>time = 0, event_task = None, event_type = ''START'',
                 description = Simulation_started\<rparr>\<rparr>)"

definition run :: "Simulator \<Rightarrow> Simulator option" where
  "run s =
     (case run_loop (run_init s, 0) of
        None \<Rightarrow> None
      | Some (s2, now) \<Rightarrow>
          Some (s2\<lparr>scheduler := add_event (scheduler s2)
                    \<lparr>time = now, event_task = None, event_type = ''END'',
                     description = Simulation_completed\<rparr>\<rparr>))"

subsection \<open>Schedulability analysis\<close>

datatype error = ZeroDivisionError

record utilization =
  periodic_utilization :: real
  dynamic_utilization :: real
  total_utilization :: real
  schedulable_rm :: bool
  schedulable_edf :: bool

text \<open>
  The accumulation loops: each step is a floating-point division followed by a
  floating-point addition to the accumulator; a float division by zero raises.
\<close>

fun util_loop :: "float_ops \<Rightarrow> Task list \<Rightarrow> real \<Rightarrow> error + real" where
  "util_loop ops [] acc = Inr acc"
| "util_loop ops (t # ts) acc =
     (if period t = 0 then Inl ZeroDivisionError
      else util_loop ops ts (fadd ops acc (fdiv ops (execution_time t) (period t))))"

text \<open>\<^verbatim>\<open>n * (2 ** (1 / n) - 1)\<close>, in floating point, \<open>n\<close> an integer.\<close>

definition rm_bound :: "float_ops \<Rightarrow> nat \<Rightarrow> real" where
  "rm_bound ops n =
     (if n = 0 then 1
      else fmul ops (real n) (fsub ops (fpow ops 2 (fdiv ops 1 (real n))) 1))"

text \<open>The empty dictionary returned when no task set is loaded is \<open>None\<close>.\<close>

definition calculate_utilization ::
  "float_ops \<Rightarrow> Simulator \<Rightarrow> error + utilization option" where
  "calculate_utilization ops s =
     (case task_set s of
        None \<Rightarrow> Inr None
      | Some ts \<Rightarrow>
          (case util_loop ops (periodic_tasks ts) 0 of
             Inl e \<Rightarrow> Inl e
           | Inr periodic_util \<Rightarrow>
               (case util_loop ops (dynamic_tasks ts) 0 of
                  Inl e \<Rightarrow> Inl e
                | Inr dynamic_util \<Rightarrow>
                    (let total_util = fadd ops periodic_util dynamic_util
                     in Inr (Some \<lparr>periodic_utilization = periodic_util,
                                   dynamic_utilization = dynamic_util,
                                   total_utilization = total_util,
                                   schedulable_rm =
                                     (periodic_util \<le> rm_bound ops (length (periodic_tasks ts))),
                                   schedulable_edf = (total_util \<le> 1)\<rparr>)))))"

section \<open>Definitions used in the statements\<close>

subsection \<open>Server invariants\<close>

text \<open>
  The capacity stays in range; for the sporadic server the invariant also says that
  every queued credit is non-negative, which is what makes it inductive.
\<close>

fun server_inv :: "aperiodic_server \<Rightarrow> bool" where
  "server_inv (Sporadic s) =
     (0 \<le> current_capacity s \<and> current_capacity s \<le> capacity s
      \<and> (\<forall>x \<in> set (replenishment_queue s). 0 \<le> snd x))"
| "server_inv s =
     (0 \<le> server_current_capacity s \<and> server_current_capacity s \<le> server_capacity s)"

text \<open>A polling and a deferrable server that agree on the fields they share.\<close>

fun poll_def_rel :: "aperiodic_server \<Rightarrow> aperiodic_server \<Rightarrow> bool" where
  "poll_def_rel (Polling a) (Deferrable b) =
     (capacity a = capacity b \<and> server_period a = server_period b
      \<and> current_capacity a = current_capacity b
      \<and> last_replenishment_time a = last_replenishment_time b)"
| "poll_def_rel s d = False"

subsection \<open>Example inputs\<close>

definition sp0 :: SporadicServer where
  "sp0 = \<lparr>capacity = 2, server_period = 5, current_capacity = 1, last_replenishment_time = 0,
          replenishment_queue = [(6, 1), (8, 1)]\<rparr>"

definition calls0 :: "server_call list" where
  "calls0 = [Consume 3 1, CanServe 2, Replenish 6, Consume 1 6, Reset, Consume 1 7]"

subsection \<open>The selection policies, as specified\<close>

text \<open>
  The key of each policy as the policy table gives it: lower keys win. \<open>now\<close> is the
  scheduler's current time, read by the least-slack-time policy only.
\<close>

definition policy_key :: "policy \<Rightarrow> real \<Rightarrow> Job \<Rightarrow> key" where
  "policy_key pol now j =
     (case pol of
        RateMonotonic \<Rightarrow>
          (if task_type (task j) = APERIODIC then Infinity else Finite (period (task j)))
      | DeadlineMonotonic \<Rightarrow>
          (if task_type (task j) = APERIODIC then Infinity else Finite (deadline (task j)))
      | EarliestDeadlineFirst \<Rightarrow> Finite (abs_deadline j)
      | FirstComeFirstServed \<Rightarrow> Finite (current_release j)
      | ShortestJobFirst \<Rightarrow> Finite (remaining j)
      | LeastSlackTime \<Rightarrow> Finite (abs_deadline j - now - remaining j))"



subsection \<open>The deadline-miss check, as specified\<close>

text \<open>
  The event logged for a missed job; the jobs that bear a deadline (periodic and
  dynamic); and the jobs that are overdue at \<open>now\<close>: the deadline has passed and work
  remains.
\<close>

definition miss_event :: "Simulator \<Rightarrow> real \<Rightarrow> nat \<Rightarrow> ScheduleEvent" where
  "miss_event s now t =
     \<lparr>time = now, event_task = Some t, event_type = ''DEADLINE_MISS'',
      description = Deadline_missed (abs_deadline (task_instances s ! t))\<rparr>"

definition deadline_bearing :: "Simulator \<Rightarrow> nat \<Rightarrow> bool" where
  "deadline_bearing s t \<longleftrightarrow> task_type (task (task_instances s ! t)) \<noteq> APERIODIC"

definition overdue :: "Simulator \<Rightarrow> real \<Rightarrow> nat \<Rightarrow> bool" where
  "overdue s now t \<longleftrightarrow>
     abs_deadline (task_instances s ! t) < now \<and> \<not> remaining (task_instances s ! t) \<le> 1 / 10 ^ 9"

definition cfg0 :: SimulationConfig where
  "cfg0 = \<lparr>simulation_time = 8, time_quantum = 1, preemptive = True,
           context_switch_overhead = 0\<rparr>"

text \<open>One periodic job with deadline 4 that has waited in the ready queue.\<close>

definition sim1 :: Simulator where
  "sim1 = (Simulator_init (Scheduler_init RateMonotonic) cfg0 None)
            \<lparr>task_instances := [Job_init (parse_periodic_task3 0 1 4) 0], ready_queue := [0]\<rparr>"

text \<open>Three ready jobs with deadlines 4, 2 and 3.\<close>

definition sim2 :: Simulator where
  "sim2 = (Simulator_init (Scheduler_init RateMonotonic) cfg0 None)
            \<lparr>task_instances :=
               [Job_init (parse_periodic_task3 0 1 4) 0,
                Job_init (parse_periodic_task3 1 1 2) 0,
                Job_init (parse_dynamic_task 2 1 3 3) 0],
             ready_queue := [0, 1, 2]\<rparr>"

text \<open>An aperiodic job released at 0 that has waited in the ready queue.\<close>

definition sim3 :: Simulator where
  "sim3 = (Simulator_init (Scheduler_init RateMonotonic) cfg0 None)
            \<lparr>task_instances := [Job_init (parse_aperiodic_task 0 0 1 NONE) 0],
             ready_queue := [0]\<rparr>"

text \<open>A simulator whose only job is aperiodic and has not arrived yet.\<close>

definition sim4 :: Simulator where
  "sim4 = (Simulator_init (Scheduler_init RateMonotonic) cfg0 None)
            \<lparr>task_instances := [Job_init (parse_aperiodic_task 0 0 1 NONE) 0]\<rparr>"

subsection \<open>Utilization, as specified\<close>

text \<open>
  The utilization of a list of tasks: the quotients of execution time by period, added
  one after the other to 0, with the given operations.
\<close>

definition utilization_sum :: "float_ops \<Rightarrow> Task list \<Rightarrow> real" where
  "utilization_sum ops ts =
     foldl (\<lambda>acc t. fadd ops acc (fdiv ops (execution_time t) (period t))) 0 ts"

text \<open>A task set with one periodic task (1 every 2) and one dynamic task (3 every 4).\<close>

definition tsU :: TaskSet where
  "tsU = add_task (add_task TaskSet_init (parse_periodic_task3 0 1 2)) (parse_dynamic_task 1 3 4 4)"

definition simU :: Simulator where
  "simU = (Simulator_init (Scheduler_init RateMonotonic) cfg0 None)\<lparr>task_set := Some tsU\<rparr>"

text \<open>A task set with a single dynamic task (3 every 2) and no periodic task.\<close>

definition tsV :: TaskSet where
  "tsV = add_task TaskSet_init (parse_dynamic_task 0 3 2 2)"

definition simV :: Simulator where
  "simV = (Simulator_init (Scheduler_init RateMonotonic) cfg0 None)\<lparr>task_set := Some tsV\<rparr>"

subsection \<open>Activation generation, as specified\<close>

text \<open>
  The release times of a periodic task: the release time of the task, then each time
  the previous one plus the period, the sum as the given addition returns it.
\<close>

definition release_seq :: "float_ops \<Rightarrow> Task \<Rightarrow> nat \<Rightarrow> real" where
  "release_seq ops t k = ((\<lambda>r. fadd ops r (period t)) ^^ k) (release_time t)"

text \<open>
  \<open>n\<close> is the number of releases strictly before the horizon: the first \<open>n\<close> release
  times are before it and the next one is not.
\<close>

definition reaches_horizon_at :: "float_ops \<Rightarrow> Task \<Rightarrow> real \<Rightarrow> nat \<Rightarrow> bool" where
  "reaches_horizon_at ops t horizon n \<longleftrightarrow>
     (\<forall>k < n. release_seq ops t k < horizon) \<and> \<not> release_seq ops t n < horizon"

text \<open>
  The first \<open>n\<close> jobs of a periodic task, and the order in which the jobs of a task set
  are generated when \<open>cnt\<close> gives the number of jobs of each periodic task: the periodic
  tasks one after the other, each with its releases in time order, then the dynamic
  tasks, then the aperiodic tasks.
\<close>

definition periodic_releases :: "float_ops \<Rightarrow> Task \<Rightarrow> nat \<Rightarrow> Job list" where
  "periodic_releases ops t n = map (\<lambda>k. Job_init t (release_seq ops t k)) [0..<n]"

definition generation_order :: "float_ops \<Rightarrow> (Task \<Rightarrow> nat) \<Rightarrow> TaskSet \<Rightarrow> Job list" where
  "generation_order ops cnt ts =
     concat (map (\<lambda>t. periodic_releases ops t (cnt t)) (periodic_tasks ts))
     @ map (\<lambda>t. Job_init t 0) (dynamic_tasks ts)
     @ map (\<lambda>t. Job_init t (release_time t)) (aperiodic_tasks ts)"

text \<open>Two small task sets; the tasks are added in the order of the input file.\<close>

definition tsD :: TaskSet where
  "tsD = add_task (add_task TaskSet_init (parse_dynamic_task 0 1 4 4)) (parse_periodic_task3 1 1 4)"

definition tsG :: TaskSet where
  "tsG = add_task (add_task TaskSet_init (parse_aperiodic_task 0 1 1 NONE)) (parse_periodic_task3 1 1 2)"

subsection \<open>Re-running a simulation\<close>

text \<open>
  What a run never changes: the configuration, the class of the scheduler, and the
  server up to a reset.
\<close>

definition static_part :: "Simulator \<Rightarrow> SimulationConfig \<times> policy \<times> aperiodic_server" where
  "static_part s = (config s, policy (scheduler s), server_reset (aperiodic_server s))"

text \<open>
  \<open>reset_all\<close> calls \<^verbatim>\<open>reset()\<close> on the scheduler and on the server of a simulator.
  \<open>rerun_reloaded\<close> runs a simulator, resets it, loads the task set again and runs once
  more; \<open>rerun_as_is\<close> does the same without loading the task set again.
\<close>

definition reset_all :: "Simulator \<Rightarrow> Simulator" where
  "reset_all s = s\<lparr>scheduler := Scheduler_reset (scheduler s),
                   aperiodic_server := server_reset (aperiodic_server s)\<rparr>"

definition rerun_reloaded :: "float_ops \<Rightarrow> Simulator \<Rightarrow> TaskSet \<Rightarrow> Simulator option" where
  "rerun_reloaded ops s ts =
     (case run s of
        None \<Rightarrow> None
      | Some s1 \<Rightarrow>
          (case load_task_set ops (reset_all s1) ts of None \<Rightarrow> None | Some s2 \<Rightarrow> run s2))"

definition rerun_as_is :: "Simulator \<Rightarrow> Simulator option" where
  "rerun_as_is s = (case run s of None \<Rightarrow> None | Some s1 \<Rightarrow> run (reset_all s1))"

definition event_log :: "Simulator option \<Rightarrow> ScheduleEvent list option" where
  "event_log r = map_option (\<lambda>s. schedule_events (scheduler s)) r"

text \<open>One aperiodic task of execution time 1 released at 0, a sporadic server, horizon 1.\<close>

definition cfg1 :: SimulationConfig where
  "cfg1 = \<lparr>simulation_time = 1, time_quantum = 1, preemptive = True,
           context_switch_overhead = 0\<rparr>"

definition tsA :: TaskSet where
  "tsA = add_task TaskSet_init (parse_aperiodic_task 0 0 1 NONE)"

definition simA0 :: Simulator where
  "simA0 = Simulator_init (Scheduler_init RateMonotonic) cfg1 (Some (Sporadic (SporadicServer_init 2 5)))"

text \<open>The simulator \<open>simA0\<close> after \<^verbatim>\<open>load_task_set\<close> of \<open>tsA\<close>.\<close>

definition simA :: Simulator where
  "simA = simA0\<lparr>task_set := Some tsA,
                 task_instances := [Job_init (parse_aperiodic_task 0 0 1 NONE) 0]\<rparr>"

section \<open>Properties of the aperiodic servers\<close>

lemma process_loop_eq:
  "process_loop cap now q cur rq =
     (fold (\<lambda>x c. min cap (c + snd x)) (filter (\<lambda>x. fst x \<le> now) q) cur,
      rq @ filter (\<lambda>x. \<not> fst x \<le> now) q)"
  by (induction q arbitrary: cur rq) auto

text \<open>
  C2, as the code has it. For the sporadic server, \<open>consume a t\<close> with \<open>a \<ge> 0\<close> lowers
  \<open>current_capacity\<close> by \<open>min a current_capacity\<close> at once; the credit it queues for
  time \<open>t + period\<close> is that consumed amount \<open>min a current_capacity\<close> (not \<open>a\<close>), and
  nothing is queued when the amount is zero. \<open>replenish now\<close> applies the queued
  entries whose time is \<open>\<le> now\<close>, in queue order, each capped at \<open>capacity\<close>, and keeps
  exactly the later entries; \<open>can_serve now\<close> does the same and answers whether the
  resulting capacity is positive.
\<close>

theorem sporadic_consume_replenish:
  assumes "0 \<le> a" and "0 \<le> current_capacity s"
  shows "current_capacity (sporadic_consume s a t) = current_capacity s - min a (current_capacity s)
       \<and> replenishment_queue (sporadic_consume s a t) =
           (if 0 < min a (current_capacity s)
            then replenishment_queue s @ [(t + server_period s, min a (current_capacity s))]
            else replenishment_queue s)
       \<and> sporadic_replenish s now =
           s\<lparr>current_capacity :=
                fold (\<lambda>x c. min (capacity s) (c + snd x))
                  (filter (\<lambda>x. fst x \<le> now) (replenishment_queue s)) (current_capacity s),
             replenishment_queue := filter (\<lambda>x. \<not> fst x \<le> now) (replenishment_queue s)\<rparr>
       \<and> sporadic_can_serve s now =
           (0 < current_capacity (sporadic_replenish s now), sporadic_replenish s now)"
proof -
  have 1: "current_capacity (sporadic_consume s a t) = current_capacity s - min a (current_capacity s)"
    using assms by (simp add: sporadic_consume_def Let_def min_def)
  have 2: "replenishment_queue (sporadic_consume s a t) =
           (if 0 < min a (current_capacity s)
            then replenishment_queue s @ [(t + server_period s, min a (current_capacity s))]
            else replenishment_queue s)"
    by (simp add: sporadic_consume_def Let_def)
  have 3: "sporadic_replenish s now =
           s\<lparr>current_capacity :=
                fold (\<lambda>x c. min (capacity s) (c + snd x))
                  (filter (\<lambda>x. fst x \<le> now) (replenishment_queue s)) (current_capacity s),
             replenishment_queue := filter (\<lambda>x. \<not> fst x \<le> now) (replenishment_queue s)\<rparr>"
    by (simp add: sporadic_replenish_def process_replenishments_def process_loop_eq)
  have 4: "sporadic_can_serve s now =
           (0 < current_capacity (sporadic_replenish s now), sporadic_replenish s now)"
    by (simp add: sporadic_can_serve_def sporadic_replenish_def Let_def)
  from 1 2 3 4 show ?thesis by blast
qed

theorem sporadic_consume_replenish_witness:
  "(0::real) \<le> 3 \<and> 0 \<le> current_capacity sp0
   \<and> current_capacity (sporadic_consume sp0 3 4) = 0
   \<and> replenishment_queue (sporadic_consume sp0 3 4) = [(6, 1), (8, 1), (9, 1)]
   \<and> sporadic_replenish sp0 6 = sp0\<lparr>current_capacity := 2, replenishment_queue := [(8, 1)]\<rparr>
   \<and> sporadic_can_serve sp0 6 = (True, sp0\<lparr>current_capacity := 2, replenishment_queue := [(8, 1)]\<rparr>)"
  using sporadic_consume_replenish[of 3 sp0 4 6]
  by (simp add: sp0_def)

text \<open>
  C2 as stated fails: a fresh server with capacity 2 and period 5 that is asked to
  consume 3 at time 1 queues a credit of 2, the amount it had, not of 3.
\<close>

theorem sporadic_credit_counterexample:
  "replenishment_queue (sporadic_consume (SporadicServer_init 2 5) 3 1)
     \<noteq> replenishment_queue (SporadicServer_init 2 5) @ [(1 + 5, 3)]
   \<and> replenishment_queue (sporadic_consume (SporadicServer_init 2 5) 3 1) = [(6, 2)]"
  by (simp add: sporadic_consume_def SporadicServer_init_def Let_def)

subsection \<open>The capacity stays in range\<close>

lemma fold_credit_range:
  "0 \<le> (cur::real) \<Longrightarrow> cur \<le> cap \<Longrightarrow> \<forall>x \<in> set (q::(real \<times> real) list). 0 \<le> snd x \<Longrightarrow>
   0 \<le> fold (\<lambda>x c. min cap (c + snd x)) q cur \<and> fold (\<lambda>x c. min cap (c + snd x)) q cur \<le> cap"
proof (induction q arbitrary: cur)
  case Nil
  then show ?case by simp
next
  case (Cons a q)
  have "0 \<le> min cap (cur + snd a)" "min cap (cur + snd a) \<le> cap"
    using Cons.prems by auto
  moreover have "\<forall>x \<in> set q. 0 \<le> snd x" using Cons.prems by simp
  ultimately show ?case using Cons.IH by simp
qed

lemma process_replenishments_inv:
  "server_inv (Sporadic s) \<Longrightarrow> server_inv (Sporadic (process_replenishments s now))"
  using fold_credit_range[of "current_capacity s" "capacity s"
      "filter (\<lambda>x. fst x \<le> now) (replenishment_queue s)"]
  by (simp add: process_replenishments_def process_loop_eq)

lemma process_replenishments_capacity:
  "capacity (process_replenishments s now) = capacity s"
  by (simp add: process_replenishments_def process_loop_eq)

lemma call_inv:
  assumes "server_inv s" and "\<And>et now. c = Consume et now \<Longrightarrow> 0 \<le> et"
  shows "server_inv (snd (call c s)) \<and> server_capacity (snd (call c s)) = server_capacity s"
proof (cases s)
  case (Background b)
  with assms show ?thesis
    by (cases c)
       (simp_all add: background_can_serve_def background_consume_def background_replenish_def
          AperiodicServer_reset_def)
next
  case (Polling b)
  with assms show ?thesis
    by (cases c)
       (auto simp: polling_can_serve_def polling_consume_def polling_replenish_def
          AperiodicServer_reset_def Let_def)
next
  case (Deferrable b)
  with assms show ?thesis
    by (cases c)
       (auto simp: deferrable_can_serve_def deferrable_consume_def deferrable_replenish_def
          deferrable_reset_def AperiodicServer_reset_def Let_def)
next
  case (Sporadic b)
  show ?thesis
  proof (cases c)
    case (CanServe now)
    with Sporadic assms(1) process_replenishments_inv[of b now] show ?thesis
      by (simp add: sporadic_can_serve_def process_replenishments_capacity Let_def)
  next
    case (Consume et now)
    with Sporadic assms show ?thesis
      by (auto simp: sporadic_consume_def Let_def)
  next
    case (Replenish now)
    with Sporadic assms(1) process_replenishments_inv[of b now] show ?thesis
      by (simp add: sporadic_replenish_def process_replenishments_capacity)
  next
    case Reset
    with Sporadic assms(1) show ?thesis
      by (simp add: sporadic_reset_def AperiodicServer_reset_def)
  qed
qed

lemma calls_inv:
  "server_inv s \<Longrightarrow> \<forall>et now. Consume et now \<in> set cs \<longrightarrow> 0 \<le> et \<Longrightarrow>
   server_inv (snd (calls cs s)) \<and> server_capacity (snd (calls cs s)) = server_capacity s"
proof (induction cs arbitrary: s)
  case Nil
  then show ?case by simp
next
  case (Cons c cs)
  have 1: "server_inv (snd (call c s)) \<and> server_capacity (snd (call c s)) = server_capacity s"
    using Cons.prems by (intro call_inv) auto
  have 2: "\<forall>et now. Consume et now \<in> set cs \<longrightarrow> 0 \<le> et"
    using Cons.prems(2) by auto
  from Cons.IH[OF conjunct1[OF 1] 2] 1 show ?case by (simp add: split_beta)
qed

lemma server_inv_range:
  "server_inv s \<Longrightarrow>
   0 \<le> server_current_capacity s \<and> server_current_capacity s \<le> server_capacity s"
  by (cases s) simp_all

text \<open>
  C8. A polling, deferrable or sporadic server constructed with capacity \<open>c > 0\<close> and
  period \<open>p > 0\<close> has \<open>0 \<le> current_capacity \<le> capacity\<close> after every sequence of
  \<open>can_serve\<close>, \<open>consume\<close> (with non-negative execution time), \<open>replenish\<close> and \<open>reset\<close>
  calls, the empty sequence included; \<open>capacity\<close> itself stays \<open>c\<close>.
\<close>

theorem capacity_within_bounds:
  assumes "0 < c" and "0 < p"
    and "srv = Polling (PollingServer_init c p) \<or> srv = Deferrable (DeferrableServer_init c p)
         \<or> srv = Sporadic (SporadicServer_init c p)"
    and "\<forall>et now. Consume et now \<in> set cs \<longrightarrow> 0 \<le> et"
  shows "0 \<le> server_current_capacity (snd (calls cs srv))
       \<and> server_current_capacity (snd (calls cs srv)) \<le> server_capacity (snd (calls cs srv))
       \<and> server_capacity (snd (calls cs srv)) = c"
proof -
  have i: "server_inv srv" and k: "server_capacity srv = c"
    using assms(1,3)
    by (auto simp: PollingServer_init_def AperiodicServer_init_def DeferrableServer_init_def
          SporadicServer_init_def)
  from calls_inv[OF i assms(4)] k server_inv_range show ?thesis by metis
qed

theorem capacity_within_bounds_witness:
  "(0::real) < 2 \<and> (0::real) < 5
   \<and> 0 \<le> server_current_capacity (snd (calls calls0 (Sporadic (SporadicServer_init 2 5))))
   \<and> server_current_capacity (snd (calls calls0 (Sporadic (SporadicServer_init 2 5))))
       \<le> server_capacity (snd (calls calls0 (Sporadic (SporadicServer_init 2 5))))
   \<and> server_capacity (snd (calls calls0 (Sporadic (SporadicServer_init 2 5)))) = 2"
proof -
  have h: "\<forall>et now. Consume et now \<in> set calls0 \<longrightarrow> 0 \<le> et"
    by (auto simp: calls0_def)
  from capacity_within_bounds[of 2 5 "Sporadic (SporadicServer_init 2 5)" calls0, OF _ _ _ h]
  show ?thesis by simp
qed

subsection \<open>Polling and deferrable servers behave alike\<close>

lemma call_rel:
  "poll_def_rel s d \<Longrightarrow>
   fst (call c s) = fst (call c d) \<and> poll_def_rel (snd (call c s)) (snd (call c d))"
  by (cases c; cases s; cases d)
     (simp_all add: polling_can_serve_def deferrable_can_serve_def polling_consume_def
        deferrable_consume_def polling_replenish_def deferrable_replenish_def
        AperiodicServer_reset_def deferrable_reset_def Let_def)

lemma calls_rel:
  "poll_def_rel s d \<Longrightarrow>
   fst (calls cs s) = fst (calls cs d) \<and> poll_def_rel (snd (calls cs s)) (snd (calls cs d))"
proof (induction cs arbitrary: s d)
  case Nil
  then show ?case by simp
next
  case (Cons c cs)
  from call_rel[OF Cons.prems, of c]
  have h: "fst (call c s) = fst (call c d)" "poll_def_rel (snd (call c s)) (snd (call c d))"
    by simp_all
  from Cons.IH[OF h(2)] h(1) show ?case by (simp add: split_beta)
qed

lemma rel_obs:
  "poll_def_rel s d \<Longrightarrow>
   server_current_capacity s = server_current_capacity d
   \<and> server_last_replenishment_time s = server_last_replenishment_time d"
  by (cases s; cases d) simp_all

text \<open>
  C9. Started with the same capacity and period and given the same sequence of calls, a
  polling server and a deferrable server return the same \<open>can_serve\<close> answers and end
  with the same \<open>current_capacity\<close> and \<open>last_replenishment_time\<close>: the flag
  \<open>is_active\<close> of the deferrable server influences nothing that is observed.
\<close>

theorem polling_deferrable_equivalent:
  "fst (calls cs (Polling (PollingServer_init c p)))
     = fst (calls cs (Deferrable (DeferrableServer_init c p)))
   \<and> server_current_capacity (snd (calls cs (Polling (PollingServer_init c p))))
     = server_current_capacity (snd (calls cs (Deferrable (DeferrableServer_init c p))))
   \<and> server_last_replenishment_time (snd (calls cs (Polling (PollingServer_init c p))))
     = server_last_replenishment_time (snd (calls cs (Deferrable (DeferrableServer_init c p))))"
proof -
  have "poll_def_rel (Polling (PollingServer_init c p)) (Deferrable (DeferrableServer_init c p))"
    by (simp add: PollingServer_init_def AperiodicServer_init_def DeferrableServer_init_def)
  from calls_rel[OF this, of cs] show ?thesis using rel_obs by blast
qed

section \<open>Properties of tasks and jobs\<close>

text \<open>
  C10. The parser constructs every aperiodic task with period 0 and deadline argument 0,
  so its deadline field is 0 as well. A Job of such a task released at \<open>r\<close> has
  \<open>abs_deadline = r\<close>, and whatever the engine later does to its mutable fields,
  \<open>is_deadline_missed now\<close> holds exactly when \<open>now > r\<close> and the job is incomplete.
\<close>

theorem aperiodic_abs_deadline_is_release:
  "period (parse_aperiodic_task cnt ri ei st) = 0
   \<and> deadline (parse_aperiodic_task cnt ri ei st) = 0
   \<and> abs_deadline (Job_init (parse_aperiodic_task cnt ri ei st) r) = r
   \<and> is_deadline_missed
        ((Job_init (parse_aperiodic_task cnt ri ei st) r)
           \<lparr>remaining := x, started := b, start_time := t0, completion_time := t1,
            preemption_count := n\<rparr>) now
      = (r < now \<and> \<not> x \<le> 1 / 10 ^ 9)"
  by (simp add: parse_aperiodic_task_def Task_init_def Job_init_def is_deadline_missed_def
      is_complete_def)

section \<open>Properties of the scheduler policies\<close>








lemma not_aperiodic: "task_type t \<in> {PERIODIC, DYNAMIC} \<longleftrightarrow> task_type t \<noteq> APERIODIC"
  by (cases "task_type t") simp_all

lemma select_task_cons:
  "select_task sch job (x # xs) =
     Some (min_loop (\<lambda>r. policy_key (policy sch) (current_time sch) (job r)) x xs)"
proof -
  have rm: "(\<lambda>j. if task_type (task (job j)) \<in> {PERIODIC, DYNAMIC}
                 then Finite (period (task (job j))) else Infinity)
          = (\<lambda>r. if task_type (task (job r)) = APERIODIC then Infinity else Finite (period (task (job r))))"
    by (rule ext) (simp add: not_aperiodic del: insert_iff)
  have dm: "(\<lambda>j. if task_type (task (job j)) \<in> {PERIODIC, DYNAMIC}
                 then Finite (deadline (task (job j))) else Infinity)
          = (\<lambda>r. if task_type (task (job r)) = APERIODIC then Infinity else Finite (deadline (task (job r))))"
    by (rule ext) (simp add: not_aperiodic del: insert_iff)
  show ?thesis
    by (cases "policy sch")
       (simp_all add: select_task_def policy_key_def rm_select_task_def edf_select_task_def
          fcfs_select_task_def sjf_select_task_def lst_select_task_def dm_select_task_def rm dm
          del: insert_iff)
qed

lemma select_task_nil: "select_task sch job [] = None"
  by (cases "policy sch")
     (simp_all add: select_task_def rm_select_task_def edf_select_task_def
        fcfs_select_task_def sjf_select_task_def lst_select_task_def dm_select_task_def)



section \<open>Properties of the simulation loop\<close>

subsection \<open>The deadline-miss check\<close>

lemma miss_step_frame:
  "task_instances (miss_step now t s) = task_instances s"
  "config (miss_step now t s) = config s"
  "aperiodic_server (miss_step now t s) = aperiodic_server s"
  "task_set (miss_step now t s) = task_set s"
  "policy (scheduler (miss_step now t s)) = policy (scheduler s)"
  "current_time (scheduler (miss_step now t s)) = current_time (scheduler s)"
  "completed_tasks (scheduler (miss_step now t s)) = completed_tasks (scheduler s)"
  by (simp_all add: miss_step_def add_event_def)

lemma fold_miss_frame:
  "task_instances (fold (miss_step now) ys s) = task_instances s
   \<and> config (fold (miss_step now) ys s) = config s
   \<and> aperiodic_server (fold (miss_step now) ys s) = aperiodic_server s
   \<and> task_set (fold (miss_step now) ys s) = task_set s
   \<and> policy (scheduler (fold (miss_step now) ys s)) = policy (scheduler s)
   \<and> current_time (scheduler (fold (miss_step now) ys s)) = current_time (scheduler s)
   \<and> completed_tasks (scheduler (fold (miss_step now) ys s)) = completed_tasks (scheduler s)"
  by (induction ys arbitrary: s) (simp_all add: miss_step_frame)

lemma fold_miss_effect:
  assumes "ready_queue s = A @ ys"
    and "\<forall>a \<in> set A. \<not> is_deadline_missed (task_instances s ! a) now"
  shows "ready_queue (fold (miss_step now) ys s)
           = A @ filter (\<lambda>t. \<not> is_deadline_missed (task_instances s ! t) now) ys
       \<and> missed_deadlines (scheduler (fold (miss_step now) ys s))
           = missed_deadlines (scheduler s)
             @ filter (\<lambda>t. is_deadline_missed (task_instances s ! t) now) ys
       \<and> schedule_events (scheduler (fold (miss_step now) ys s))
           = schedule_events (scheduler s)
             @ map (miss_event s now) (filter (\<lambda>t. is_deadline_missed (task_instances s ! t) now) ys)"
  using assms
proof (induction ys arbitrary: s A)
  case Nil
  then show ?case by simp
next
  case (Cons y ys)
  show ?case
  proof (cases "is_deadline_missed (task_instances s ! y) now")
    case True
    let ?s1 = "miss_step now y s"
    have ti: "task_instances ?s1 = task_instances s" by (simp add: miss_step_frame)
    have "y \<notin> set A" using Cons.prems(2) True by auto
    then have rq: "ready_queue ?s1 = A @ ys"
      using Cons.prems(1) True by (simp add: miss_step_def remove1_append)
    have md: "missed_deadlines (scheduler ?s1) = missed_deadlines (scheduler s) @ [y]"
      using True by (simp add: miss_step_def add_event_def)
    have ev: "schedule_events (scheduler ?s1) = schedule_events (scheduler s) @ [miss_event s now y]"
      using True by (simp add: miss_step_def add_event_def miss_event_def)
    from Cons.IH[of ?s1 A, OF rq] Cons.prems(2) ti md ev True
    show ?thesis by (simp add: miss_event_def)
  next
    case False
    have s1: "miss_step now y s = s" using False by (simp add: miss_step_def)
    have rq: "ready_queue s = (A @ [y]) @ ys" using Cons.prems(1) by simp
    have "\<forall>a \<in> set (A @ [y]). \<not> is_deadline_missed (task_instances s ! a) now"
      using Cons.prems(2) False by simp
    from Cons.IH[of s "A @ [y]", OF rq this] s1 False
    show ?thesis by simp
  qed
qed

lemma check_deadline_misses_effect:
  "ready_queue (check_deadline_misses s now)
     = filter (\<lambda>t. \<not> is_deadline_missed (task_instances s ! t) now) (ready_queue s)
   \<and> missed_deadlines (scheduler (check_deadline_misses s now))
     = missed_deadlines (scheduler s)
       @ filter (\<lambda>t. is_deadline_missed (task_instances s ! t) now) (ready_queue s)
   \<and> schedule_events (scheduler (check_deadline_misses s now))
     = schedule_events (scheduler s)
       @ map (miss_event s now)
           (filter (\<lambda>t. is_deadline_missed (task_instances s ! t) now) (ready_queue s))"
  using fold_miss_effect[of s "[]" "ready_queue s" now]
  by (simp add: check_deadline_misses_def)

text \<open>
  C1, as the code has it. The deadline-miss check records a list \<open>new\<close> of jobs as
  missed: it removes exactly these jobs from the ready queue, appends them to the missed
  list in ready order and logs one \<open>DEADLINE_MISS\<close> event for each. Every job it records
  was ready, is incomplete and has an absolute deadline strictly before \<open>now\<close> (a job
  whose deadline equals \<open>now\<close> stays ready), and every ready periodic or dynamic job
  that is incomplete with its deadline strictly before \<open>now\<close> is recorded. The statement
  leaves open whether an overdue aperiodic job is recorded.
\<close>

theorem deadline_miss_check:
  "\<exists>new. ready_queue (check_deadline_misses s now)
            = filter (\<lambda>t. t \<notin> set new) (ready_queue s)
        \<and> new = filter (\<lambda>t. t \<in> set new) (ready_queue s)
        \<and> missed_deadlines (scheduler (check_deadline_misses s now))
            = missed_deadlines (scheduler s) @ new
        \<and> schedule_events (scheduler (check_deadline_misses s now))
            = schedule_events (scheduler s) @ map (miss_event s now) new
        \<and> (\<forall>t \<in> set new. overdue s now t)
        \<and> (\<forall>t \<in> set (ready_queue s).
              deadline_bearing s t \<and> overdue s now t \<longrightarrow> t \<in> set new)"
proof -
  let ?M = "\<lambda>t. is_deadline_missed (task_instances s ! t) now"
  let ?new = "filter ?M (ready_queue s)"
  have m: "?M t \<longleftrightarrow> overdue s now t" for t
    by (auto simp: is_deadline_missed_def is_complete_def overdue_def)
  have 1: "ready_queue (check_deadline_misses s now)
             = filter (\<lambda>t. t \<notin> set ?new) (ready_queue s)"
    using check_deadline_misses_effect[of s now] by (auto intro: filter_cong)
  have 2: "?new = filter (\<lambda>t. t \<in> set ?new) (ready_queue s)"
    by (auto intro: filter_cong)
  have 3: "missed_deadlines (scheduler (check_deadline_misses s now))
             = missed_deadlines (scheduler s) @ ?new"
    using check_deadline_misses_effect[of s now] by simp
  have 4: "schedule_events (scheduler (check_deadline_misses s now))
             = schedule_events (scheduler s) @ map (miss_event s now) ?new"
    using check_deadline_misses_effect[of s now] by simp
  have 5: "\<forall>t \<in> set ?new. overdue s now t" by (simp add: m)
  have 6: "\<forall>t \<in> set (ready_queue s). deadline_bearing s t \<and> overdue s now t \<longrightarrow> t \<in> set ?new"
    by (simp add: m)
  from 1 2 3 4 5 6 show ?thesis by blast
qed

theorem deadline_miss_check_witness:
  "ready_queue sim2 = [0, 1, 2]
   \<and> deadline_bearing sim2 1 \<and> overdue sim2 3 1
   \<and> \<not> overdue sim2 3 0 \<and> \<not> overdue sim2 3 2
   \<and> ready_queue (check_deadline_misses sim2 3) = [0, 2]
   \<and> missed_deadlines (scheduler (check_deadline_misses sim2 3)) = [1]
   \<and> schedule_events (scheduler (check_deadline_misses sim2 3)) = [miss_event sim2 3 1]"
proof -
  have 1: "ready_queue sim2 = [0, 1, 2]"
    by (simp add: sim2_def)
  have 2: "deadline_bearing sim2 1 \<and> overdue sim2 3 1 \<and> \<not> overdue sim2 3 0 \<and> \<not> overdue sim2 3 2"
    by (simp add: sim2_def Simulator_init_def deadline_bearing_def overdue_def Job_init_def
        parse_periodic_task3_def parse_dynamic_task_def Task_init_def)
  have 3: "ready_queue (check_deadline_misses sim2 3) = [0, 2]
     \<and> missed_deadlines (scheduler (check_deadline_misses sim2 3)) = [1]
     \<and> schedule_events (scheduler (check_deadline_misses sim2 3)) = [miss_event sim2 3 1]"
    by (simp add: sim2_def Simulator_init_def check_deadline_misses_def miss_step_def
        is_deadline_missed_def is_complete_def add_event_def Scheduler_init_def Job_init_def
        parse_periodic_task3_def parse_dynamic_task_def Task_init_def miss_event_def)
  from deadline_miss_check[of sim2 3] 1 2 3 show ?thesis by simp
qed

text \<open>
  C1 as stated fails at the boundary: a ready, incomplete periodic job whose absolute
  deadline is 4 is neither removed nor recorded at \<open>now = 4\<close>.
\<close>

theorem deadline_miss_boundary_counterexample:
  "abs_deadline (task_instances sim1 ! 0) \<le> 4
   \<and> \<not> is_complete (task_instances sim1 ! 0)
   \<and> ready_queue sim1 = [0]
   \<and> ready_queue (check_deadline_misses sim1 4) = [0]
   \<and> missed_deadlines (scheduler (check_deadline_misses sim1 4)) = []
   \<and> schedule_events (scheduler (check_deadline_misses sim1 4)) = []"
  by (simp add: sim1_def Simulator_init_def check_deadline_misses_def miss_step_def
      is_deadline_missed_def is_complete_def Scheduler_init_def Job_init_def
      parse_periodic_task3_def Task_init_def)

text \<open>
  The code makes no exception for aperiodic jobs, although the deadline-monotonic policy
  of the same program gives them an infinite deadline: a ready, incomplete aperiodic job
  released at 0 is recorded as missed at time 1.
\<close>

lemma aperiodic_job_recorded_as_missed:
  "task_type (task (task_instances sim3 ! 0)) = APERIODIC
   \<and> ready_queue (check_deadline_misses sim3 1) = []
   \<and> missed_deadlines (scheduler (check_deadline_misses sim3 1)) = [0]"
  by (simp add: sim3_def Simulator_init_def check_deadline_misses_def miss_step_def
      is_deadline_missed_def is_complete_def Scheduler_init_def Job_init_def add_event_def
      parse_aperiodic_task_def Task_init_def)

subsection \<open>Priority of deadline-bearing jobs over aperiodic jobs\<close>

lemma min_loop_mem: "min_loop k b xs \<in> set (b # xs)"
  by (induction xs arbitrary: b) (simp, fastforce)

lemma select_task_mem:
  assumes "select_task sch job rq = Some j"
  shows "j \<in> set rq"
proof (cases rq)
  case Nil
  with assms show ?thesis by (simp add: select_task_nil)
next
  case (Cons x xs)
  from assms have "j = min_loop (\<lambda>r. policy_key (policy sch) (current_time sch) (job r)) x xs"
    unfolding Cons select_task_cons by simp
  then show ?thesis unfolding Cons using min_loop_mem by metis
qed

lemma update_job_nth:
  "task_instances (update_job r f s) ! j =
     (if j = r \<and> r < length (task_instances s) then f (task_instances s ! r)
      else task_instances s ! j)"
  by (cases "r < length (task_instances s)") (auto simp: update_job_def list_update_beyond)

lemma check_arrivals_jobs: "task_instances (check_arrivals s now) = task_instances s"
proof -
  have "task_instances (fold (\<lambda>t s'. s'\<lparr>ready_queue := ready_queue s' @ [t],
                          scheduler := add_event (scheduler s')
                            \<lparr>time = now, event_task = Some t, event_type = ''ARRIVAL'',
                             description = Arrived (abs_deadline (task_instances s' ! t))\<rparr>\<rparr>) xs s0)
        = task_instances s0" for xs s0
    by (induction xs arbitrary: s0) simp_all
  then show ?thesis by (simp add: check_arrivals_def Let_def)
qed

lemma check_deadline_misses_jobs:
  "task_instances (check_deadline_misses s now) = task_instances s"
proof -
  have "task_instances (fold (miss_step now) ys s0) = task_instances s0" for ys s0
    by (induction ys arbitrary: s0) (simp_all add: miss_step_def)
  then show ?thesis by (simp add: check_deadline_misses_def)
qed

lemma before_selection_jobs: "task_instances (before_selection s now) = task_instances s"
  by (simp add: before_selection_def Let_def check_deadline_misses_jobs check_arrivals_jobs)

lemma select_next_jobs: "task_instances (snd (select_next s now)) = task_instances s"
  by (simp add: select_next_def Let_def split: prod.splits)

lemma preempt_step_remaining:
  "remaining (task_instances (preempt_step s now nt) ! j) = remaining (task_instances s ! j)"
  by (simp add: preempt_step_def update_job_nth split: option.splits)

lemma start_step_remaining:
  "remaining (task_instances (fst (start_step s now nt)) ! j) = remaining (task_instances s ! j)"
  by (simp add: start_step_def update_job_nth Let_def split: prod.splits)

lemma execute_step_remaining:
  "j \<noteq> nt \<Longrightarrow>
   remaining (task_instances (fst (execute_step s now nt)) ! j) = remaining (task_instances s ! j)"
  by (simp add: execute_step_def update_job_nth Let_def)

lemma run_task_remaining:
  "j \<noteq> nt \<Longrightarrow>
   remaining (task_instances (fst (run_task s now nt)) ! j) = remaining (task_instances s ! j)"
  using start_step_remaining[of "preempt_step s now nt" now nt j]
  by (simp add: run_task_def execute_step_remaining preempt_step_remaining split: prod.splits, metis fst_conv)

lemma idle_step_jobs: "task_instances (fst (idle_step s now)) = task_instances s"
  by (simp add: idle_step_def Let_def split: prod.splits)

lemma loop_body_executes_selected:
  assumes "remaining (task_instances (fst (loop_body (s, now))) ! j) \<noteq> remaining (task_instances s ! j)"
  shows "fst (select_next (before_selection s now) now) = Some j"
proof (cases "select_next (before_selection s now) now")
  case (Pair sel s1)
  have ti: "task_instances s1 = task_instances s"
    using select_next_jobs[of "before_selection s now" now] Pair by (simp add: before_selection_jobs)
  show ?thesis
  proof (cases sel)
    case None
    then have "task_instances (fst (loop_body (s, now))) = task_instances s"
      using Pair ti by (simp add: loop_body_def idle_step_jobs)
    with assms show ?thesis by simp
  next
    case (Some nt)
    then have lb: "loop_body (s, now) = run_task s1 now nt"
      using Pair by (simp add: loop_body_def)
    have "j = nt"
    proof (rule ccontr)
      assume "j \<noteq> nt"
      from run_task_remaining[OF this, of s1 now] lb ti assms show False by simp
    qed
    then show ?thesis using Pair Some by simp
  qed
qed

lemma select_next_aperiodic:
  assumes "fst (select_next s now) = Some j"
  shows "j \<in> set (ready_queue s)"
    and "task_type (task (task_instances s ! j)) = APERIODIC \<Longrightarrow>
         (\<forall>t \<in> set (ready_queue s). task_type (task (task_instances s ! t)) = APERIODIC)
         \<and> fst (can_serve (aperiodic_server s) now)"
proof -
  let ?job = "\<lambda>t. task_instances s ! t"
  let ?P = "filter (\<lambda>t. task_type (task (?job t)) \<noteq> APERIODIC) (ready_queue s)"
  let ?A = "filter (\<lambda>t. task_type (task (?job t)) = APERIODIC) (ready_queue s)"
  show "j \<in> set (ready_queue s)"
  proof (cases "?P = []")
    case False
    then have "select_task (scheduler s) ?job ?P = Some j"
      using assms by (simp add: select_next_def Let_def)
    from select_task_mem[OF this] show ?thesis by simp
  next
    case True
    then have "select_task (scheduler s) ?job ?A = Some j"
      using assms by (auto simp: select_next_def Let_def split: if_splits prod.splits)
    from select_task_mem[OF this] show ?thesis by simp
  qed
  assume ap: "task_type (task (task_instances s ! j)) = APERIODIC"
  have P: "?P = []"
  proof (rule ccontr)
    assume ne: "?P \<noteq> []"
    then have "select_task (scheduler s) ?job ?P = Some j"
      using assms by (simp add: select_next_def Let_def)
    from select_task_mem[OF this] ap show False by simp
  qed
  then have all: "\<forall>t \<in> set (ready_queue s). task_type (task (task_instances s ! t)) = APERIODIC"
    by (simp add: filter_empty_conv)
  have "fst (can_serve (aperiodic_server s) now)"
    using assms P by (auto simp: select_next_def Let_def split: if_splits prod.splits)
  with all show "(\<forall>t \<in> set (ready_queue s). task_type (task (task_instances s ! t)) = APERIODIC)
         \<and> fst (can_serve (aperiodic_server s) now)" by simp
qed

text \<open>
  C6. In any state of the loop, if an aperiodic job is the one selected in an iteration,
  or is one whose remaining time the iteration changes (it was executed), then it is the
  job selected after arrivals, deadline misses and replenishment, every job in the ready
  queue at that point is aperiodic, and \<open>can_serve now\<close> is true there.
\<close>

theorem aperiodic_only_without_deadline_bearing_work:
  assumes "task_type (task (task_instances s ! j)) = APERIODIC"
    and "fst (select_next (before_selection s now) now) = Some j
         \<or> remaining (task_instances (fst (loop_body (s, now))) ! j)
             \<noteq> remaining (task_instances s ! j)"
  shows "fst (select_next (before_selection s now) now) = Some j
       \<and> (\<forall>t \<in> set (ready_queue (before_selection s now)).
             task_type (task (task_instances s ! t)) = APERIODIC)
       \<and> fst (can_serve (aperiodic_server (before_selection s now)) now)"
proof -
  have sel: "fst (select_next (before_selection s now) now) = Some j"
    using assms(2) loop_body_executes_selected by blast
  have "task_type (task (task_instances (before_selection s now) ! j)) = APERIODIC"
    using assms(1) by (simp add: before_selection_jobs)
  from select_next_aperiodic(2)[OF sel this] sel show ?thesis
    by (simp add: before_selection_jobs)
qed

lemma sim4_selects:
  "fst (select_next (before_selection sim4 0) 0) = Some 0"
  by (simp add: sim4_def Simulator_init_def before_selection_def check_arrivals_def
      check_deadline_misses_def miss_step_def is_deadline_missed_def is_complete_def
      select_next_def select_task_def rm_select_task_def Scheduler_init_def add_event_def
      BackgroundServer_init_def AperiodicServer_init_def background_replenish_def
      background_can_serve_def Job_init_def parse_aperiodic_task_def Task_init_def Let_def)

theorem aperiodic_only_without_deadline_bearing_work_witness:
  "task_type (task (task_instances sim4 ! 0)) = APERIODIC
   \<and> fst (select_next (before_selection sim4 0) 0) = Some 0
   \<and> fst (can_serve (aperiodic_server (before_selection sim4 0)) 0)"
proof -
  have a: "task_type (task (task_instances sim4 ! 0)) = APERIODIC"
    by (simp add: sim4_def Simulator_init_def Job_init_def parse_aperiodic_task_def Task_init_def)
  from aperiodic_only_without_deadline_bearing_work[of sim4 0 0, OF a] sim4_selects a
  show ?thesis by simp
qed

section \<open>Properties of the schedulability analysis\<close>

lemma util_loop_eq:
  "util_loop ops ts acc =
     (if \<exists>t \<in> set ts. period t = 0 then Inl ZeroDivisionError
      else Inr (foldl (\<lambda>acc t. fadd ops acc (fdiv ops (execution_time t) (period t))) acc ts))"
  by (induction ts arbitrary: acc) simp_all

text \<open>
  C3, as the code has it. Without a task set \<open>calculate_utilization\<close> returns the empty
  result; a period equal to zero among the periodic or the dynamic tasks raises
  \<open>ZeroDivisionError\<close>; otherwise it reports the utilization of the periodic tasks, that
  of the dynamic tasks and their sum, each accumulated from 0 in list order with the
  operations of the code. \<open>schedulable_edf\<close> compares the sum with 1, and
  \<open>schedulable_rm\<close> compares the periodic utilization alone with \<open>rm_bound\<close> of the
  number of periodic tasks alone. \<open>rm_bound 0 = 1\<close> and \<open>rm_bound n\<close> is
  \<^verbatim>\<open>n * (2 ** (1 / n) - 1)\<close> for \<open>n > 0\<close>. This holds for every choice of the
  floating-point operations.
\<close>

theorem calculate_utilization_result:
  "calculate_utilization ops s =
     (case task_set s of
        None \<Rightarrow> Inr None
      | Some ts \<Rightarrow>
          if (\<exists>t \<in> set (periodic_tasks ts). period t = 0)
             \<or> (\<exists>t \<in> set (dynamic_tasks ts). period t = 0)
          then Inl ZeroDivisionError
          else Inr (Some
                 \<lparr>periodic_utilization = utilization_sum ops (periodic_tasks ts),
                  dynamic_utilization = utilization_sum ops (dynamic_tasks ts),
                  total_utilization =
                    fadd ops (utilization_sum ops (periodic_tasks ts))
                      (utilization_sum ops (dynamic_tasks ts)),
                  schedulable_rm =
                    (utilization_sum ops (periodic_tasks ts)
                       \<le> rm_bound ops (length (periodic_tasks ts))),
                  schedulable_edf =
                    (fadd ops (utilization_sum ops (periodic_tasks ts))
                       (utilization_sum ops (dynamic_tasks ts)) \<le> 1)\<rparr>))
   \<and> rm_bound ops 0 = 1
   \<and> (\<forall>n > 0. rm_bound ops n
         = fmul ops (real n) (fsub ops (fpow ops 2 (fdiv ops 1 (real n))) 1))"
proof -
  have r: "rm_bound ops 0 = 1
     \<and> (\<forall>n > 0. rm_bound ops n
           = fmul ops (real n) (fsub ops (fpow ops 2 (fdiv ops 1 (real n))) 1))"
    by (simp add: rm_bound_def)
  have c: "calculate_utilization ops s =
     (case task_set s of
        None \<Rightarrow> Inr None
      | Some ts \<Rightarrow>
          if (\<exists>t \<in> set (periodic_tasks ts). period t = 0)
             \<or> (\<exists>t \<in> set (dynamic_tasks ts). period t = 0)
          then Inl ZeroDivisionError
          else Inr (Some
                 \<lparr>periodic_utilization = utilization_sum ops (periodic_tasks ts),
                  dynamic_utilization = utilization_sum ops (dynamic_tasks ts),
                  total_utilization =
                    fadd ops (utilization_sum ops (periodic_tasks ts))
                      (utilization_sum ops (dynamic_tasks ts)),
                  schedulable_rm =
                    (utilization_sum ops (periodic_tasks ts)
                       \<le> rm_bound ops (length (periodic_tasks ts))),
                  schedulable_edf =
                    (fadd ops (utilization_sum ops (periodic_tasks ts))
                       (utilization_sum ops (dynamic_tasks ts)) \<le> 1)\<rparr>))"
  proof (cases "task_set s")
    case None
    then show ?thesis by (simp add: calculate_utilization_def)
  next
    case (Some ts)
    then show ?thesis
      by (simp add: calculate_utilization_def util_loop_eq utilization_sum_def Let_def)
  qed
  from c r show ?thesis by blast
qed

lemma tsU_lists:
  "periodic_tasks tsU = [parse_periodic_task3 0 1 2]"
  "dynamic_tasks tsU = [parse_dynamic_task 1 3 4 4]"
  by (simp_all add: tsU_def add_task_def TaskSet_init_def parse_periodic_task3_def
      parse_dynamic_task_def Task_init_def Let_def)

lemma tsV_lists:
  "periodic_tasks tsV = []"
  "dynamic_tasks tsV = [parse_dynamic_task 0 3 2 2]"
  by (simp_all add: tsV_def add_task_def TaskSet_init_def parse_dynamic_task_def Task_init_def
      Let_def)

text \<open>
  On this input every operation has an exactly representable result
  (1/2, 3/4, 5/4 and the bound 1), so the exact operations are the ones of the code.
\<close>

theorem calculate_utilization_result_witness:
  "task_set simU = Some tsU
   \<and> calculate_utilization exact_ops simU =
       Inr (Some \<lparr>periodic_utilization = 1 / 2, dynamic_utilization = 3 / 4,
                  total_utilization = 5 / 4, schedulable_rm = True, schedulable_edf = False\<rparr>)
   \<and> rm_bound exact_ops 1 = 1"
proof -
  have a: "task_set simU = Some tsU" by (simp add: simU_def)
  have c: "utilization_sum exact_ops (periodic_tasks tsU) = 1 / 2"
    "utilization_sum exact_ops (dynamic_tasks tsU) = 3 / 4"
    by (simp_all add: tsU_lists utilization_sum_def exact_ops_def parse_periodic_task3_def
        parse_dynamic_task_def Task_init_def)
  have d: "rm_bound exact_ops (length (periodic_tasks tsU)) = 1" "rm_bound exact_ops 1 = 1"
    by (simp_all add: tsU_lists rm_bound_def exact_ops_def)
  have z: "\<not> ((\<exists>t \<in> set (periodic_tasks tsU). period t = 0)
             \<or> (\<exists>t \<in> set (dynamic_tasks tsU). period t = 0))"
    by (simp add: tsU_lists parse_periodic_task3_def parse_dynamic_task_def Task_init_def)
  have f: "fadd exact_ops (1 / 2) (3 / 4) = 5 / 4" by (simp add: exact_ops_def)
  from calculate_utilization_result[of exact_ops simU] a c d z f show ?thesis by simp
qed

text \<open>
  C3 as stated fails: with no periodic task and one dynamic task of utilization 3/2 the
  code reports \<open>schedulable_rm = True\<close> (periodic utilization 0 against \<open>rm_bound 0 = 1\<close>),
  although the combined utilization 3/2 exceeds \<open>rm_bound 1 = 1\<close>, the bound for the one
  deadline-bearing task. All values are exactly representable.
\<close>

theorem schedulable_rm_counterexample:
  "calculate_utilization exact_ops simV =
       Inr (Some \<lparr>periodic_utilization = 0, dynamic_utilization = 3 / 2,
                  total_utilization = 3 / 2, schedulable_rm = True, schedulable_edf = False\<rparr>)
   \<and> length (periodic_tasks tsV) + length (dynamic_tasks tsV) = 1
   \<and> rm_bound exact_ops 1 = 1
   \<and> \<not> (3 / 2 \<le> rm_bound exact_ops 1)"
proof -
  have p: "util_loop exact_ops (periodic_tasks tsV) 0 = Inr 0"
    by (simp add: tsV_lists)
  have d: "util_loop exact_ops (dynamic_tasks tsV) 0 = Inr (3 / 2)"
    by (simp add: tsV_lists parse_dynamic_task_def Task_init_def exact_ops_def)
  have r: "rm_bound exact_ops (length (periodic_tasks tsV)) = 1"
    by (simp add: tsV_lists rm_bound_def)
  have 1: "calculate_utilization exact_ops simV =
       Inr (Some \<lparr>periodic_utilization = 0, dynamic_utilization = 3 / 2,
                  total_utilization = 3 / 2, schedulable_rm = True, schedulable_edf = False\<rparr>)"
    by (simp add: calculate_utilization_def simV_def p d r Let_def) (simp add: exact_ops_def)
  have 2: "length (periodic_tasks tsV) + length (dynamic_tasks tsV) = 1"
    by (simp add: tsV_lists)
  have 3: "rm_bound exact_ops 1 = 1" by (simp add: rm_bound_def exact_ops_def)
  from 1 2 3 show ?thesis by simp
qed

section \<open>Properties of the activation generation\<close>

lemma release_seq_Suc:
  "release_seq ops t (Suc k) = fadd ops (release_seq ops t k) (period t)"
  by (simp add: release_seq_def)

lemma release_loop_eq:
  assumes "\<forall>i < n. release_seq ops t (k + i) < horizon"
    and "\<not> release_seq ops t (k + n) < horizon"
  shows "release_loop ops t horizon (release_seq ops t k) acc
           = Some (acc @ map (\<lambda>i. Job_init t (release_seq ops t i)) [k..<k + n])"
  using assms
proof (induction n arbitrary: k acc)
  case 0
  then show ?case by (subst release_loop.simps) simp
next
  case (Suc n)
  have lt: "release_seq ops t k < horizon" using Suc.prems(1)[rule_format, of 0] by simp
  have a: "\<forall>i < n. release_seq ops t (Suc k + i) < horizon"
  proof (intro allI impI)
    fix i assume "i < n"
    then have "Suc i < Suc n" by simp
    from Suc.prems(1)[rule_format, OF this] show "release_seq ops t (Suc k + i) < horizon"
      by simp
  qed
  have b: "\<not> release_seq ops t (Suc k + n) < horizon" using Suc.prems(2) by simp
  have "release_loop ops t horizon (release_seq ops t k) acc
        = release_loop ops t horizon (release_seq ops t (Suc k))
            (acc @ [Job_init t (release_seq ops t k)])"
    using lt by (subst release_loop.simps) (simp add: release_seq_Suc)
  also have "\<dots> = Some ((acc @ [Job_init t (release_seq ops t k)])
                 @ map (\<lambda>i. Job_init t (release_seq ops t i)) [Suc k..<Suc k + n])"
    using Suc.IH[OF a b] .
  finally show ?case by (simp add: upt_conv_Cons del: upt_Suc)
qed

lemma release_loop_reaches:
  assumes "reaches_horizon_at ops t horizon n"
  shows "release_loop ops t horizon (release_time t) acc = Some (acc @ periodic_releases ops t n)"
proof -
  have "release_loop ops t horizon (release_seq ops t 0) acc
          = Some (acc @ map (\<lambda>i. Job_init t (release_seq ops t i)) [0..<0 + n])"
    using assms by (intro release_loop_eq) (simp_all add: reaches_horizon_at_def)
  then show ?thesis by (simp add: periodic_releases_def release_seq_def)
qed

lemma periodic_loop_eq:
  "\<forall>t \<in> set ps. reaches_horizon_at ops t horizon (cnt t) \<Longrightarrow>
   periodic_loop ops ps horizon acc
     = Some (acc @ concat (map (\<lambda>t. periodic_releases ops t (cnt t)) ps))"
proof (induction ps arbitrary: acc)
  case Nil
  then show ?case by simp
next
  case (Cons p ps)
  have "reaches_horizon_at ops p horizon (cnt p)" using Cons.prems by simp
  from release_loop_reaches[OF this, of acc] Cons show ?case by simp
qed

lemma generate_eq:
  "\<forall>t \<in> set (periodic_tasks ts). reaches_horizon_at ops t horizon (cnt t) \<Longrightarrow>
   generate_task_instances ops ts horizon
     = Some (sort_key current_release (generation_order ops cnt ts))"
  by (simp add: generate_task_instances_def periodic_loop_eq generation_order_def)

text \<open>
  C5, as the code has it. Let the release times of a periodic task be its release time
  and then, each time, the floating-point sum of the previous release time and the
  period. When for every periodic task this sequence reaches the horizon, after \<open>cnt\<close>
  releases strictly before it, the generation returns, and its result holds exactly the
  jobs of \<open>generation_order\<close>: for each periodic task one job at each of its \<open>cnt\<close>
  release times before the horizon, for each dynamic task one job at 0, for each
  aperiodic task one job at its release time. The result is sorted by release time, and
  jobs with the same release time keep their generation order: periodic before dynamic
  before aperiodic, and the order of the task lists within each kind.
\<close>

theorem generate_task_instances_result:
  assumes "\<forall>t \<in> set (periodic_tasks ts). reaches_horizon_at ops t horizon (cnt t)"
  shows "\<exists>js. generate_task_instances ops ts horizon = Some js
            \<and> sorted (map current_release js)
            \<and> (\<forall>r. filter (\<lambda>j. current_release j = r) js
                   = filter (\<lambda>j. current_release j = r) (generation_order ops cnt ts))"
proof -
  let ?js = "sort_key current_release (generation_order ops cnt ts)"
  have 1: "generate_task_instances ops ts horizon = Some ?js"
    using generate_eq[OF assms] .
  have 2: "sorted (map current_release ?js)" by simp
  have 3: "\<forall>r. filter (\<lambda>j. current_release j = r) ?js
             = filter (\<lambda>j. current_release j = r) (generation_order ops cnt ts)"
    by (simp add: sort_key_stable)
  from 1 2 3 show ?thesis by blast
qed

text \<open>
  The hypothesis is needed: when the sum of a release time before the horizon and the
  period is that release time again (a period of zero, or one that the rounding
  absorbs), the loop does not return.
\<close>

lemma release_loop_absorbed:
  assumes "rel < horizon" and "fadd ops rel (period t) = rel"
  shows "release_loop ops t horizon rel acc = None"
proof (rule ccontr)
  assume "release_loop ops t horizon rel acc \<noteq> None"
  then obtain js where r: "release_loop ops t horizon rel acc = Some js" by auto
  have "\<not> (rel < horizon \<and> fadd ops rel (period t) = rel)"
  proof (rule release_loop.raw_induct
      [where P = "\<lambda>ops t horizon rel acc js. \<not> (rel < horizon \<and> fadd ops rel (period t) = rel)",
        OF _ r])
    fix rl :: "float_ops \<Rightarrow> Task \<Rightarrow> real \<Rightarrow> real \<Rightarrow> Job list \<Rightarrow> Job list option"
      and ops' t' horizon' rel' acc' js'
    assume IH: "\<And>ops t horizon rel acc js. rl ops t horizon rel acc = Some js \<Longrightarrow>
                 \<not> (rel < horizon \<and> fadd ops rel (period t) = rel)"
      and eq: "(if rel' < horizon'
                then rl ops' t' horizon' (fadd ops' rel' (period t')) (acc' @ [Job_init t' rel'])
                else Some acc') = Some js'"
    show "\<not> (rel' < horizon' \<and> fadd ops' rel' (period t') = rel')"
    proof
      assume h: "rel' < horizon' \<and> fadd ops' rel' (period t') = rel'"
      with eq have "rl ops' t' horizon' rel' (acc' @ [Job_init t' rel']) = Some js'" by simp
      from IH[OF this] h show False by simp
    qed
  qed
  with assms show False by simp
qed

text \<open>
  With the exact operations the release times are \<open>release_time + k * period\<close>, and a
  positive period reaches every horizon.
\<close>

lemma release_seq_exact:
  "release_seq exact_ops t k = release_time t + real k * period t"
  by (induction k) (simp_all add: release_seq_def exact_ops_def algebra_simps)

lemma reaches_horizon_exact:
  assumes "0 < period t"
  shows "reaches_horizon_at exact_ops t horizon (nat \<lceil>(horizon - release_time t) / period t\<rceil>)"
proof -
  have "release_time t + real k * period t < horizon
        \<longleftrightarrow> k < nat \<lceil>(horizon - release_time t) / period t\<rceil>" for k
  proof -
    have "release_time t + real k * period t < horizon
          \<longleftrightarrow> real k < (horizon - release_time t) / period t"
      using assms by (simp add: field_simps)
    also have "\<dots> \<longleftrightarrow> int k < \<lceil>(horizon - release_time t) / period t\<rceil>"
      by (simp add: less_ceiling_iff)
    also have "\<dots> \<longleftrightarrow> k < nat \<lceil>(horizon - release_time t) / period t\<rceil>"
      by (simp add: zless_nat_eq_int_zless)
    finally show ?thesis .
  qed
  then show ?thesis by (simp add: reaches_horizon_at_def release_seq_exact)
qed

lemma tsD_lists:
  "tasks tsD = [parse_dynamic_task 0 1 4 4, parse_periodic_task3 1 1 4]"
  "periodic_tasks tsD = [parse_periodic_task3 1 1 4]"
  "dynamic_tasks tsD = [parse_dynamic_task 0 1 4 4]"
  "aperiodic_tasks tsD = []"
  by (simp_all add: tsD_def add_task_def TaskSet_init_def parse_periodic_task3_def
      parse_dynamic_task_def Task_init_def Let_def)

lemma tsD_generate:
  "generate_task_instances exact_ops tsD 4
     = Some [Job_init (parse_periodic_task3 1 1 4) 0, Job_init (parse_dynamic_task 0 1 4 4) 0]"
proof -
  have p: "\<forall>t \<in> set (periodic_tasks tsD). reaches_horizon_at exact_ops t 4 ((\<lambda>t. 1) t)"
    by (simp add: tsD_lists reaches_horizon_at_def release_seq_exact parse_periodic_task3_def
        Task_init_def)
  have g: "generation_order exact_ops (\<lambda>t. 1) tsD
     = [Job_init (parse_periodic_task3 1 1 4) 0, Job_init (parse_dynamic_task 0 1 4 4) 0]"
    by (simp add: generation_order_def tsD_lists periodic_releases_def release_seq_exact
        parse_periodic_task3_def Task_init_def)
  show ?thesis
    unfolding generate_eq[OF p] g by (simp add: Job_init_def)
qed

text \<open>
  C5 as stated fails on the tie-break: with a dynamic task defined before a periodic task,
  both released at 0, the job of the periodic task comes first. (The only sum formed is
  0 + 4, which is exact.)
\<close>

theorem tie_break_counterexample:
  "tasks tsD = [parse_dynamic_task 0 1 4 4, parse_periodic_task3 1 1 4]
   \<and> generate_task_instances exact_ops tsD 4
       = Some [Job_init (parse_periodic_task3 1 1 4) 0, Job_init (parse_dynamic_task 0 1 4 4) 0]
   \<and> current_release (Job_init (parse_periodic_task3 1 1 4) 0)
       = current_release (Job_init (parse_dynamic_task 0 1 4 4) 0)"
  using tsD_generate by (simp add: tsD_lists Job_init_def)

lemma tsG_lists:
  "periodic_tasks tsG = [parse_periodic_task3 1 1 2]"
  "dynamic_tasks tsG = []"
  "aperiodic_tasks tsG = [parse_aperiodic_task 0 1 1 NONE]"
  by (simp_all add: tsG_def add_task_def TaskSet_init_def parse_periodic_task3_def
      parse_aperiodic_task_def Task_init_def Let_def)

text \<open>The sums formed on this input, 0 + 2 and 2 + 2, are exact.\<close>

theorem generate_task_instances_result_witness:
  "reaches_horizon_at exact_ops (parse_periodic_task3 1 1 2) 4 2
   \<and> generate_task_instances exact_ops tsG 4
     = Some [Job_init (parse_periodic_task3 1 1 2) 0,
             Job_init (parse_aperiodic_task 0 1 1 NONE) 1,
             Job_init (parse_periodic_task3 1 1 2) 2]"
proof -
  have c: "reaches_horizon_at exact_ops (parse_periodic_task3 1 1 2) 4 2"
    by (simp add: reaches_horizon_at_def release_seq_exact parse_periodic_task3_def
        Task_init_def less_Suc_eq numeral_2_eq_2)
  then have p: "\<forall>t \<in> set (periodic_tasks tsG). reaches_horizon_at exact_ops t 4 ((\<lambda>t. 2) t)"
    by (simp add: tsG_lists)
  have g: "generation_order exact_ops (\<lambda>t. 2) tsG
     = [Job_init (parse_periodic_task3 1 1 2) 0, Job_init (parse_periodic_task3 1 1 2) 2,
        Job_init (parse_aperiodic_task 0 1 1 NONE) 1]"
    by (simp add: generation_order_def tsG_lists periodic_releases_def release_seq_exact
        parse_periodic_task3_def parse_aperiodic_task_def Task_init_def upt_rec)
  have e: "generate_task_instances exact_ops tsG 4
     = Some [Job_init (parse_periodic_task3 1 1 2) 0,
             Job_init (parse_aperiodic_task 0 1 1 NONE) 1,
             Job_init (parse_periodic_task3 1 1 2) 2]"
    unfolding generate_eq[OF p] g by (simp add: Job_init_def)
  from generate_task_instances_result[OF p] e c show ?thesis by simp
qed

section \<open>Properties of a whole run\<close>

lemma reset_replenish: "server_reset (replenish srv now) = server_reset srv"
  by (cases srv)
     (simp_all add: background_replenish_def polling_replenish_def deferrable_replenish_def
        sporadic_replenish_def process_replenishments_def process_loop_eq
        AperiodicServer_reset_def deferrable_reset_def sporadic_reset_def)

lemma reset_can_serve: "server_reset (snd (can_serve srv now)) = server_reset srv"
  by (cases srv)
     (simp_all add: sporadic_can_serve_def process_replenishments_def process_loop_eq
        AperiodicServer_reset_def sporadic_reset_def Let_def)

lemma reset_consume: "server_reset (consume srv et now) = server_reset srv"
  by (cases srv)
     (simp_all add: background_consume_def polling_consume_def deferrable_consume_def
        sporadic_consume_def AperiodicServer_reset_def deferrable_reset_def sporadic_reset_def
        Let_def)

lemma static_check_arrivals: "static_part (check_arrivals s now) = static_part s"
proof -
  have "static_part (fold (\<lambda>t s'. s'\<lparr>ready_queue := ready_queue s' @ [t],
                          scheduler := add_event (scheduler s')
                            \<lparr>time = now, event_task = Some t, event_type = ''ARRIVAL'',
                             description = Arrived (abs_deadline (task_instances s' ! t))\<rparr>\<rparr>) xs s0)
        = static_part s0" for xs s0
    by (induction xs arbitrary: s0) (simp_all add: static_part_def add_event_def)
  then show ?thesis by (simp add: check_arrivals_def Let_def)
qed

lemma static_check_deadline_misses: "static_part (check_deadline_misses s now) = static_part s"
  using fold_miss_frame[of now "ready_queue s" s]
  by (simp add: static_part_def check_deadline_misses_def)

lemma static_before_selection: "static_part (before_selection s now) = static_part s"
  using static_check_deadline_misses[of "check_arrivals s now" now] static_check_arrivals[of s now]
  by (simp add: before_selection_def Let_def static_part_def reset_replenish)

lemma static_select_next: "static_part (snd (select_next s now)) = static_part s"
proof (cases "can_serve (aperiodic_server s) now")
  case (Pair ok srv)
  with reset_can_serve[of "aperiodic_server s" now]
  have "server_reset srv = server_reset (aperiodic_server s)" by simp
  with Pair show ?thesis by (simp add: select_next_def Let_def static_part_def)
qed

lemma static_update_job: "static_part (update_job r f s) = static_part s"
  by (simp add: static_part_def update_job_def)

lemma static_preempt_step: "static_part (preempt_step s now nt) = static_part s"
  by (simp add: preempt_step_def static_update_job split: option.splits)
     (simp add: static_part_def add_event_def)

lemma static_start_step: "static_part (fst (start_step s now nt)) = static_part s"
  by (simp add: start_step_def Let_def static_update_job split: prod.splits)
     (auto simp: static_part_def add_event_def)

lemma static_execute_step: "static_part (fst (execute_step s now nt)) = static_part s"
  by (simp add: execute_step_def Let_def static_update_job)
     (simp add: static_part_def update_job_def add_event_def reset_consume)

lemma static_run_task: "static_part (fst (run_task s now nt)) = static_part s"
  using static_start_step[of "preempt_step s now nt" now nt]
  by (simp add: run_task_def static_execute_step static_preempt_step split: prod.splits)
     (metis fst_conv)

lemma static_idle_step: "static_part (fst (idle_step s now)) = static_part s"
  by (simp add: idle_step_def Let_def split: prod.splits)
     (auto simp: static_part_def add_event_def)

lemma static_loop_body: "static_part (fst (loop_body st)) = static_part (fst st)"
proof (cases st)
  case (Pair s now)
  obtain sel s1 where sn: "select_next (before_selection s now) now = (sel, s1)"
    by (cases "select_next (before_selection s now) now")
  have s1: "static_part s1 = static_part s"
    using static_select_next[of "before_selection s now" now] sn
    by (simp add: static_before_selection)
  show ?thesis
    using Pair sn s1 by (cases sel) (simp_all add: loop_body_def static_run_task static_idle_step)
qed

lemma static_run_loop:
  assumes "run_loop st = Some st'"
  shows "static_part (fst st') = static_part (fst st)"
proof (rule run_loop.raw_induct[OF _ assms])
  fix rl :: "Simulator \<times> real \<Rightarrow> (Simulator \<times> real) option" and st sta
  assume IH: "\<And>x y. rl x = Some y \<Longrightarrow> static_part (fst y) = static_part (fst x)"
    and eq: "(if snd st < simulation_time (config (fst st)) then rl (loop_body st) else Some st)
             = Some sta"
  show "static_part (fst sta) = static_part (fst st)"
  proof (cases "snd st < simulation_time (config (fst st))")
    case True
    with eq have "rl (loop_body st) = Some sta" by simp
    from IH[OF this] show ?thesis by (simp add: static_loop_body)
  next
    case False
    with eq show ?thesis by simp
  qed
qed

lemma static_run_init:
  "config (run_init s) = config s"
  "aperiodic_server (run_init s) = aperiodic_server s"
  "task_set (run_init s) = task_set s"
  "task_instances (run_init s) = task_instances s"
  "ready_queue (run_init s) = []"
  "current_task (run_init s) = None"
  "scheduler (run_init s)
     = \<lparr>policy = policy (scheduler s), current_time = 0,
        schedule_events = [\<lparr>time = 0, event_task = None, event_type = ''START'',
                             description = Simulation_started\<rparr>],
        completed_tasks = [], missed_deadlines = []\<rparr>"
  by (simp_all add: run_init_def Let_def Scheduler_reset_def add_event_def)

lemma static_run:
  assumes "run s = Some s1"
  shows "static_part s1 = static_part s"
proof -
  from assms obtain s2 now where rl: "run_loop (run_init s, 0) = Some (s2, now)"
    and s1: "s1 = s2\<lparr>scheduler := add_event (scheduler s2)
                       \<lparr>time = now, event_task = None, event_type = ''END'',
                        description = Simulation_completed\<rparr>\<rparr>"
    by (auto simp: run_def split: option.splits)
  from static_run_loop[OF rl] have "static_part s2 = static_part (run_init s)" by simp
  then show ?thesis
    unfolding s1 by (simp add: static_part_def add_event_def static_run_init)
qed

lemma run_init_cong:
  assumes "config a = config b" and "policy (scheduler a) = policy (scheduler b)"
    and "aperiodic_server a = aperiodic_server b" and "task_set a = task_set b"
    and "task_instances a = task_instances b"
  shows "run_init a = run_init b"
  by (rule Simulator.equality) (simp_all add: static_run_init assms)

lemma load_task_set_fields:
  assumes "load_task_set ops s ts = Some s'"
  shows "config s' = config s" and "scheduler s' = scheduler s"
    and "aperiodic_server s' = aperiodic_server s" and "task_set s' = Some ts"
    and "generate_task_instances ops ts (simulation_time (config s)) = Some (task_instances s')"
  using assms by (auto simp: load_task_set_def split: option.splits)

text \<open>
  C7, as the code has it. Take a simulator built with a freshly constructed server (or
  none) and any scheduler, load a task set and run it. If the scheduler and the server
  are then reset, the same task set is loaded again (which regenerates the Jobs) and the
  simulator is run again, the second run returns the very state the first run returned,
  in particular the same event log.
\<close>

theorem rerun_reproduces_event_log:
  assumes "osrv = None \<or> osrv = Some (Background BackgroundServer_init)
           \<or> osrv = Some (Polling (PollingServer_init c p))
           \<or> osrv = Some (Deferrable (DeferrableServer_init c p))
           \<or> osrv = Some (Sporadic (SporadicServer_init c p))"
    and "load_task_set ops (Simulator_init sch cfg osrv) ts = Some s0"
    and "run s0 = Some s1"
  shows "rerun_reloaded ops s0 ts = Some s1
       \<and> event_log (rerun_reloaded ops s0 ts) = event_log (run s0)"
proof -
  have fresh: "server_reset (aperiodic_server s0) = aperiodic_server s0"
    using assms(1) load_task_set_fields(3)[OF assms(2)]
    by (auto simp: Simulator_init_def BackgroundServer_init_def PollingServer_init_def
          AperiodicServer_init_def DeferrableServer_init_def SporadicServer_init_def
          AperiodicServer_reset_def deferrable_reset_def sporadic_reset_def)
  from static_run[OF assms(3)]
  have c: "config s1 = config s0" and pl: "policy (scheduler s1) = policy (scheduler s0)"
    and sv: "server_reset (aperiodic_server s1) = aperiodic_server s0"
    using fresh by (simp_all add: static_part_def)
  have cfg: "config s0 = config (Simulator_init sch cfg osrv)"
    using load_task_set_fields(1)[OF assms(2)] .
  have gen: "generate_task_instances ops ts (simulation_time (config s0)) = Some (task_instances s0)"
    using load_task_set_fields(5)[OF assms(2)] cfg by simp
  let ?s2 = "(reset_all s1)\<lparr>task_set := Some ts, task_instances := task_instances s0\<rparr>"
  have ld: "load_task_set ops (reset_all s1) ts = Some ?s2"
    using gen c by (simp add: load_task_set_def reset_all_def)
  have "run_init ?s2 = run_init s0"
    using c pl sv load_task_set_fields(4)[OF assms(2)]
    by (intro run_init_cong) (simp_all add: reset_all_def Scheduler_reset_def)
  then have "run ?s2 = run s0" by (simp add: run_def)
  then have "rerun_reloaded ops s0 ts = Some s1"
    using assms(3) ld by (simp add: rerun_reloaded_def)
  then show ?thesis using assms(3) by simp
qed

lemma simA_load: "load_task_set exact_ops simA0 tsA = Some simA"
  by code_simp

lemma simA_run: "event_log (run simA) = Some
  [\<lparr>time = 0, event_task = None, event_type = ''START'',
      description = Simulation_started\<rparr>,
   \<lparr>time = 0, event_task = Some 0, event_type = ''ARRIVAL'',
      description = Arrived 0\<rparr>,
   \<lparr>time = 0, event_task = Some 0, event_type = ''START'',
      description = Started_execution\<rparr>,
   \<lparr>time = 1, event_task = Some 0, event_type = ''COMPLETE'',
      description = Completed 0\<rparr>,
   \<lparr>time = 1, event_task = None, event_type = ''END'',
      description = Simulation_completed\<rparr>]"
  by code_simp

theorem rerun_reproduces_event_log_witness:
  "load_task_set exact_ops simA0 tsA = Some simA
   \<and> event_log (rerun_reloaded exact_ops simA tsA) = Some
  [\<lparr>time = 0, event_task = None, event_type = ''START'',
      description = Simulation_started\<rparr>,
   \<lparr>time = 0, event_task = Some 0, event_type = ''ARRIVAL'',
      description = Arrived 0\<rparr>,
   \<lparr>time = 0, event_task = Some 0, event_type = ''START'',
      description = Started_execution\<rparr>,
   \<lparr>time = 1, event_task = Some 0, event_type = ''COMPLETE'',
      description = Completed 0\<rparr>,
   \<lparr>time = 1, event_task = None, event_type = ''END'',
      description = Simulation_completed\<rparr>]"
proof -
  from simA_run obtain s1 where r: "run simA = Some s1"
    by (auto simp: event_log_def)
  have l: "load_task_set exact_ops (Simulator_init (Scheduler_init RateMonotonic) cfg1
             (Some (Sporadic (SporadicServer_init 2 5)))) tsA = Some simA"
    using simA_load by (simp add: simA0_def)
  from rerun_reproduces_event_log[of "Some (Sporadic (SporadicServer_init 2 5))" 2 5
      exact_ops "Scheduler_init RateMonotonic" cfg1 tsA simA s1, OF _ l r] simA_run simA_load r
  show ?thesis by simp
qed

text \<open>
  C7 as stated fails when the task set is not loaded again: \<^verbatim>\<open>reset()\<close> of the
  scheduler and of the server does not restore the Jobs, so the second run finds the job
  of the first run complete and logs an idle period instead of its execution.
\<close>

theorem rerun_without_reload_counterexample:
  "event_log (run simA) = Some
  [\<lparr>time = 0, event_task = None, event_type = ''START'',
      description = Simulation_started\<rparr>,
   \<lparr>time = 0, event_task = Some 0, event_type = ''ARRIVAL'',
      description = Arrived 0\<rparr>,
   \<lparr>time = 0, event_task = Some 0, event_type = ''START'',
      description = Started_execution\<rparr>,
   \<lparr>time = 1, event_task = Some 0, event_type = ''COMPLETE'',
      description = Completed 0\<rparr>,
   \<lparr>time = 1, event_task = None, event_type = ''END'',
      description = Simulation_completed\<rparr>]
   \<and> event_log (rerun_as_is simA) = Some
  [\<lparr>time = 0, event_task = None, event_type = ''START'',
      description = Simulation_started\<rparr>,
   \<lparr>time = 0, event_task = None, event_type = ''IDLE'',
      description = Idle_until 1\<rparr>,
   \<lparr>time = 1, event_task = None, event_type = ''END'',
      description = Simulation_completed\<rparr>]"
  by code_simp

end
